theory Spec2Isabelle
  imports Complex_Main
begin

section \<open>Python values: strings, decimal formatting, paths\<close>

text \<open>
  A Python \<open>str\<close> is a sequence of Unicode code points; the language heuristic of the
  transcription service looks at code points beyond one byte, so a string is a list of
  natural numbers here. ASCII literals of the source are written through \<open>cps\<close>.
\<close>

type_synonym ustring = "nat list"

definition cps :: "string \<Rightarrow> ustring" where
  "cps s = map of_char s"

text \<open>\<open>sep.join(xs)\<close>.\<close>

fun join :: "ustring \<Rightarrow> ustring list \<Rightarrow> ustring" where
  "join sep [] = []"
| "join sep [x] = x"
| "join sep (x # y # ys) = x @ sep @ join sep (y # ys)"

text \<open>
  Decimal digits of a non-negative integer, most significant first; \<open>str(i)\<close> for an
  integer and the format \<open>{i:04d}\<close> (zero padded to width four, wider when the number
  needs it) for the non-negative loop index of the chunker.
\<close>

fun digits :: "nat \<Rightarrow> ustring" where
  "digits n = (if n < 10 then [48 + n] else digits (n div 10) @ [48 + n mod 10])"

declare digits.simps [simp del]

definition str_int :: "int \<Rightarrow> ustring" where
  "str_int i = (if i < 0 then 45 # digits (nat (- i)) else digits (nat i))"

definition fmt_04d :: "nat \<Rightarrow> ustring" where
  "fmt_04d i = replicate (4 - length (digits i)) 48 @ digits i"

text \<open>
  A \<open>pathlib.Path\<close> (POSIX flavour) with a final component: the directory it lies in and
  its name. \<open>suffix\<close>, \<open>stem\<close> and \<open>with_suffix\<close> are pathlib's: the suffix starts at the
  last dot of the name, unless that dot is the first or the last character.
\<close>

datatype path = Path (parent: ustring) (name: ustring)

definition rfind :: "nat \<Rightarrow> ustring \<Rightarrow> int" where
  "rfind c s =
     (if c \<in> set s
      then int (length s) - 1 - int (length (takeWhile (\<lambda>x. x \<noteq> c) (rev s)))
      else - 1)"

definition suffix :: "path \<Rightarrow> ustring" where
  "suffix p =
     (let i = rfind 46 (name p)
      in if 0 < i \<and> i < int (length (name p)) - 1 then drop (nat i) (name p) else [])"

definition stem :: "path \<Rightarrow> ustring" where
  "stem p =
     (let i = rfind 46 (name p)
      in if 0 < i \<and> i < int (length (name p)) - 1 then take (nat i) (name p) else name p)"

text \<open>\<open>Path(s)\<close> for a string: the components between slashes, empty ones and \<open>.\<close> dropped.\<close>

fun split_sep :: "ustring \<Rightarrow> ustring list" where
  "split_sep [] = [[]]"
| "split_sep (c # cs) =
     (if c = 47 then [] # split_sep cs
      else (case split_sep cs of [] \<Rightarrow> [[c]] | w # ws \<Rightarrow> (c # w) # ws))"

definition path_of :: "ustring \<Rightarrow> path" where
  "path_of s =
     (let parts = filter (\<lambda>c. c \<noteq> [] \<and> c \<noteq> [46]) (split_sep s)
      in Path ((if take 1 s = [47] then [47] else []) @ join [47] (butlast parts))
              (if parts = [] then [] else last parts))"

text \<open>\<open>dir / name\<close> for a name of one component.\<close>

definition joinpath :: "ustring \<Rightarrow> ustring \<Rightarrow> path" where
  "joinpath dir nm = Path dir nm"

section \<open>Files, exceptions, configuration and the outside world\<close>

datatype content = Bytes "nat list" | Wav int "real list" | Truncated

type_synonym fs = "path \<rightharpoonup> content"

text \<open>
  The three exception classes the handlers of the service tell apart:
  \<open>TranscriptionError(message, code)\<close>, \<open>AudioProcessingError(message)\<close>, and every other
  exception (\<open>RuntimeError\<close>, \<open>ValueError\<close>, ...) with the text \<open>str(e)\<close> gives.
\<close>

datatype exn =
    TranscriptionError ustring string
  | AudioProcessingError ustring
  | OtherException ustring

record settings =
  chunk_size_seconds :: int
  sample_rate :: int
  max_audio_duration_seconds :: int
  max_file_size_mb :: int
  temp_dir :: ustring
  supported_formats :: "ustring list"

text \<open>
  A write that raises carries the text of its exception and says whether it left a
  truncated file behind.
\<close>

datatype write_fault = WriteFault ustring bool

text \<open>
  What the service does not decide itself: Python's character tables, the random UUID,
  the clock, the decoders (librosa, pydub, soundfile), the recognition engine and the
  faults of the operating system. A decoder or the engine sees the content of the file
  it is pointed at (\<open>None\<close> when there is no such file) and answers with the text of the
  exception it raises (\<open>Inl\<close>) or with its result.
\<close>

record env =
  isalpha :: "nat \<Rightarrow> bool"
  isspace :: "nat \<Rightarrow> bool"
  str_lower :: "ustring \<Rightarrow> ustring"
  uuid4 :: ustring
  path_repr :: "path \<Rightarrow> ustring"
  elapsed_ms :: int
  librosa_get_duration :: "content option \<Rightarrow> ustring + real"
  pydub_from_file :: "content option \<Rightarrow> int \<Rightarrow> ustring + real list"
  pydub_export :: "path \<Rightarrow> write_fault option"
  librosa_load :: "content option \<Rightarrow> int \<Rightarrow> ustring + real list"
  sf_write :: "path \<Rightarrow> write_fault option"
  open_write :: "path \<Rightarrow> write_fault option"
  unlink_fault :: "path \<Rightarrow> bool"
  model_loaded :: bool
  recognizer :: "content option \<Rightarrow> ustring + ustring"

text \<open>\<open>s.lower()\<close> (the empty string has no character to map), \<open>s.strip()\<close>, \<open>s.lstrip(".")\<close>.\<close>

definition lower :: "env \<Rightarrow> ustring \<Rightarrow> ustring" where
  "lower env s = (if s = [] then [] else str_lower env s)"

definition strip :: "env \<Rightarrow> ustring \<Rightarrow> ustring" where
  "strip env s = rev (dropWhile (isspace env) (rev (dropWhile (isspace env) s)))"

definition lstrip_dot :: "ustring \<Rightarrow> ustring" where
  "lstrip_dot s = dropWhile (\<lambda>c. c = 46) s"

text \<open>
  \<open>p.with_suffix(sfx)\<close> for a well-formed suffix (the service passes \<open>.converted.wav\<close>
  only): pathlib raises \<open>ValueError\<close> for a path with an empty name.
\<close>

definition with_suffix :: "env \<Rightarrow> path \<Rightarrow> ustring \<Rightarrow> exn + path" where
  "with_suffix env p sfx =
     (if name p = [] then Inl (OtherException (path_repr env p @ cps '' has an empty name''))
      else if suffix p = [] then Inr (Path (parent p) (name p @ sfx))
      else Inr (Path (parent p) (take (length (name p) - length (suffix p)) (name p) @ sfx)))"

text \<open>Writing a file, and \<open>Path.unlink\<close> (the flag tells whether it returned normally).\<close>

definition write_file :: "write_fault option \<Rightarrow> fs \<Rightarrow> path \<Rightarrow> content \<Rightarrow> (ustring + unit) \<times> fs" where
  "write_file flt fs p c =
     (case flt of
        None \<Rightarrow> (Inr (), fs(p \<mapsto> c))
      | Some (WriteFault e leaves) \<Rightarrow> (Inl e, if leaves then fs(p \<mapsto> Truncated) else fs))"

definition unlink :: "env \<Rightarrow> fs \<Rightarrow> path \<Rightarrow> bool \<times> fs" where
  "unlink env fs p =
     (if fs p = None \<or> unlink_fault env p then (False, fs) else (True, fs(p := None)))"

text \<open>\<open>y[start:stop]\<close> for indices that are not negative.\<close>

definition py_slice :: "'a list \<Rightarrow> int \<Rightarrow> int \<Rightarrow> 'a list" where
  "py_slice y start stop = drop (nat start) (take (nat stop) y)"

section \<open>The audio processor (\<open>services/audio_processor.py\<close>)\<close>

definition get_audio_duration :: "env \<Rightarrow> fs \<Rightarrow> path \<Rightarrow> exn + real" where
  "get_audio_duration env fs file_path =
     (case librosa_get_duration env (fs file_path) of
        Inl e \<Rightarrow> Inl (AudioProcessingError (cps ''Failed to get audio duration: '' @ e))
      | Inr d \<Rightarrow> Inr d)"

definition validate_format :: "env \<Rightarrow> settings \<Rightarrow> ustring \<Rightarrow> bool" where
  "validate_format env cfg filename =
     (lstrip_dot (lower env (suffix (path_of filename))) \<in> set (supported_formats cfg))"

text \<open>
  \<open>save_upload(file, filename)\<close>; \<open>file\<close> is what \<open>file.read()\<close> does: the exception it
  raises or the bytes it returns.
\<close>

definition save_upload :: "env \<Rightarrow> settings \<Rightarrow> fs \<Rightarrow> ustring + nat list \<Rightarrow> ustring \<Rightarrow> (exn + path) \<times> fs" where
  "save_upload env cfg fs file filename =
     (let ext0 = lower env (suffix (path_of filename));
          ext = (if ext0 = [] then cps ''.wav'' else ext0);
          unique_name = uuid4 env @ ext;
          file_path = joinpath (temp_dir cfg) unique_name
      in case file of
           Inl e \<Rightarrow> (Inl (AudioProcessingError (cps ''Failed to save upload: '' @ e)), fs)
         | Inr bytes \<Rightarrow>
             (case write_file (open_write env file_path) fs file_path (Bytes bytes) of
                (Inl e, fs') \<Rightarrow> (Inl (AudioProcessingError (cps ''Failed to save upload: '' @ e)), fs')
              | (Inr u, fs') \<Rightarrow> (Inr file_path, fs')))"

text \<open>
  \<open>convert_to_wav\<close>: the pydub strategy (decode, one channel, resample, export), and in
  its \<open>except\<close> clause the librosa strategy (load, \<open>sf.write\<close>).
\<close>

definition pydub_strategy :: "env \<Rightarrow> settings \<Rightarrow> fs \<Rightarrow> path \<Rightarrow> path \<Rightarrow> (ustring + unit) \<times> fs" where
  "pydub_strategy env cfg fs input_path output_path =
     (case pydub_from_file env (fs input_path) (sample_rate cfg) of
        Inl e \<Rightarrow> (Inl e, fs)
      | Inr audio \<Rightarrow>
          write_file (pydub_export env output_path) fs output_path (Wav (sample_rate cfg) audio))"

definition librosa_strategy :: "env \<Rightarrow> settings \<Rightarrow> fs \<Rightarrow> path \<Rightarrow> path \<Rightarrow> (ustring + unit) \<times> fs" where
  "librosa_strategy env cfg fs input_path output_path =
     (case librosa_load env (fs input_path) (sample_rate cfg) of
        Inl e \<Rightarrow> (Inl e, fs)
      | Inr y \<Rightarrow>
          write_file (sf_write env output_path) fs output_path (Wav (sample_rate cfg) y))"

definition convert_to_wav :: "env \<Rightarrow> settings \<Rightarrow> fs \<Rightarrow> path \<Rightarrow> (exn + path) \<times> fs" where
  "convert_to_wav env cfg fs input_path =
     (case with_suffix env input_path (cps ''.converted.wav'') of
        Inl e \<Rightarrow> (Inl e, fs)
      | Inr output_path \<Rightarrow>
          (case pydub_strategy env cfg fs input_path output_path of
             (Inr u, fs1) \<Rightarrow> (Inr output_path, fs1)
           | (Inl e, fs1) \<Rightarrow>
               (case librosa_strategy env cfg fs1 input_path output_path of
                  (Inr u, fs2) \<Rightarrow> (Inr output_path, fs2)
                | (Inl e2, fs2) \<Rightarrow>
                    (Inl (AudioProcessingError (cps ''Failed to convert audio: '' @ e2)), fs2))))"

text \<open>
  \<open>split_audio\<close>. The loop over \<open>range(num_chunks)\<close> writes one chunk per index and
  appends its path to \<open>chunks\<close>; when a write raises, the loop stops with the exception
  and the \<open>chunks\<close> of that moment, which the \<open>except\<close> clause unlinks, swallowing what
  an unlink raises.
\<close>

definition chunk_path :: "path \<Rightarrow> nat \<Rightarrow> path" where
  "chunk_path audio_path i =
     Path (parent audio_path) (stem audio_path @ cps ''_chunk_'' @ fmt_04d i @ cps ''.wav'')"

fun split_loop :: "env \<Rightarrow> path \<Rightarrow> real list \<Rightarrow> int \<Rightarrow> int \<Rightarrow> nat list \<Rightarrow> path list \<Rightarrow> fs
    \<Rightarrow> (ustring \<times> path list + path list) \<times> fs" where
  "split_loop env audio_path y sr chunk_samples [] chunks fs = (Inr chunks, fs)"
| "split_loop env audio_path y sr chunk_samples (i # rest) chunks fs =
     (let start = int i * chunk_samples;
          stop = min ((int i + 1) * chunk_samples) (int (length y));
          chunk_audio = py_slice y start stop
      in case write_file (sf_write env (chunk_path audio_path i)) fs (chunk_path audio_path i)
                (Wav sr chunk_audio) of
           (Inl e, fs') \<Rightarrow> (Inl (e, chunks), fs')
         | (Inr u, fs') \<Rightarrow>
             split_loop env audio_path y sr chunk_samples rest (chunks @ [chunk_path audio_path i]) fs')"

fun unlink_chunks :: "env \<Rightarrow> path list \<Rightarrow> fs \<Rightarrow> fs" where
  "unlink_chunks env [] fs = fs"
| "unlink_chunks env (chunk # rest) fs = unlink_chunks env rest (snd (unlink env fs chunk))"

definition split_audio :: "env \<Rightarrow> settings \<Rightarrow> fs \<Rightarrow> path \<Rightarrow> int \<Rightarrow> (exn + path list) \<times> fs" where
  "split_audio env cfg fs audio_path chunk_duration =
     (case librosa_load env (fs audio_path) (sample_rate cfg) of
        Inl e \<Rightarrow> (Inl (AudioProcessingError (cps ''Failed to split audio: '' @ e)), fs)
      | Inr y \<Rightarrow>
          (let sr = sample_rate cfg;
               total_samples = int (length y);
               chunk_samples = chunk_duration * sr
           in if chunk_samples = 0
              then (Inl (AudioProcessingError (cps ''Failed to split audio: division by zero'')), fs)
              else (let num_chunks = \<lceil>real_of_int total_samples / real_of_int chunk_samples\<rceil>
                    in case split_loop env audio_path y sr chunk_samples [0..<nat num_chunks] [] fs of
                         (Inr chunks, fs') \<Rightarrow> (Inr chunks, fs')
                       | (Inl (e, chunks), fs') \<Rightarrow>
                           (Inl (AudioProcessingError (cps ''Failed to split audio: '' @ e)),
                            unlink_chunks env chunks fs'))))"

definition cleanup_file :: "env \<Rightarrow> fs \<Rightarrow> path \<Rightarrow> fs" where
  "cleanup_file env fs file_path =
     (if fs file_path \<noteq> None then snd (unlink env fs file_path) else fs)"

fun cleanup_files :: "env \<Rightarrow> fs \<Rightarrow> path list \<Rightarrow> fs" where
  "cleanup_files env fs [] = fs"
| "cleanup_files env fs (p # file_paths) = cleanup_files env (cleanup_file env fs p) file_paths"

section \<open>The recognizer (\<open>ml_models/asr.py\<close>)\<close>

definition asr_transcribe :: "env \<Rightarrow> fs \<Rightarrow> path \<Rightarrow> exn + ustring" where
  "asr_transcribe env fs audio_path =
     (if \<not> model_loaded env then Inl (OtherException (cps ''Model not loaded''))
      else (case recognizer env (fs audio_path) of
              Inl e \<Rightarrow> Inl (OtherException (cps ''Transcription failed: '' @ e))
            | Inr t \<Rightarrow> Inr (strip env t)))"

section \<open>The transcription service (\<open>services/transcription.py\<close>)\<close>

record transcription_result =
  result_text :: ustring
  language :: ustring
  duration :: real
  chunks_processed :: nat
  processing_time_ms :: int

definition is_cyrillic :: "nat \<Rightarrow> bool" where
  "is_cyrillic c \<longleftrightarrow> 1024 \<le> c \<and> c \<le> 1279"

definition detect_language :: "env \<Rightarrow> ustring \<Rightarrow> ustring" where
  "detect_language env s =
     (if s = [] then cps ''en''
      else (let cyrillic_count = length (filter is_cyrillic s);
                total_alpha = length (filter (isalpha env) s)
            in if total_alpha = 0 then cps ''en''
               else (let cyrillic_ratio = real cyrillic_count / real total_alpha
                     in if cyrillic_ratio > 3 / 10 then cps ''ru'' else cps ''en'')))"

text \<open>
  The loop over the chunks: one recognizer call per chunk, in the order of the list; a
  text that is not empty is appended to \<open>texts\<close>. The second component is the log of the
  files the recognizer was called on.
\<close>

fun transcribe_chunks :: "env \<Rightarrow> fs \<Rightarrow> path list \<Rightarrow> ustring list \<Rightarrow> path list
    \<Rightarrow> (exn + ustring list) \<times> path list" where
  "transcribe_chunks env fs [] texts calls = (Inr texts, calls)"
| "transcribe_chunks env fs (chunk # rest) texts calls =
     (case asr_transcribe env fs chunk of
        Inl e \<Rightarrow> (Inl e, calls @ [chunk])
      | Inr t \<Rightarrow>
          transcribe_chunks env fs rest (if t \<noteq> [] then texts @ [t] else texts)
            (calls @ [chunk]))"

text \<open>The tail of the \<open>try\<close> block, from the processing time to the result.\<close>

definition make_result :: "env \<Rightarrow> ustring \<Rightarrow> ustring option \<Rightarrow> real \<Rightarrow> nat \<Rightarrow> transcription_result" where
  "make_result env full_text lang d n =
     \<lparr>result_text = strip env full_text,
      language = (case lang of
                    None \<Rightarrow> detect_language env full_text
                  | Some l \<Rightarrow> if l = [] then detect_language env full_text else l),
      duration = d,
      chunks_processed = n,
      processing_time_ms = elapsed_ms env\<rparr>"

text \<open>
  The \<open>try\<close> block of \<open>transcribe\<close>: its outcome (the exception raised inside it, or the
  result), the list \<open>temp_files\<close> at that moment, the file system and the recognizer log.
\<close>

definition transcribe_try :: "env \<Rightarrow> settings \<Rightarrow> fs \<Rightarrow> path \<Rightarrow> ustring option
    \<Rightarrow> (exn + transcription_result) \<times> path list \<times> fs \<times> path list" where
  "transcribe_try env cfg fs audio_path lang =
     (case get_audio_duration env fs audio_path of
        Inl e \<Rightarrow> (Inl e, [], fs, [])
      | Inr d \<Rightarrow>
          if d > real_of_int (max_audio_duration_seconds cfg)
          then (Inl (TranscriptionError
                       (cps ''Audio too long. Maximum duration is ''
                          @ str_int (max_audio_duration_seconds cfg div 60) @ cps '' minutes.'')
                       ''AUDIO_TOO_LONG''), [], fs, [])
          else if d < 1 / 10
          then (Inl (TranscriptionError (cps ''Audio file appears to be empty or too short.'')
                       ''AUDIO_TOO_SHORT''), [], fs, [])
          else (case convert_to_wav env cfg fs audio_path of
                  (Inl e, fs1) \<Rightarrow> (Inl e, [], fs1, [])
                | (Inr converted_path, fs1) \<Rightarrow>
                    if d > real_of_int (chunk_size_seconds cfg)
                    then (case split_audio env cfg fs1 converted_path (chunk_size_seconds cfg) of
                            (Inl e, fs2) \<Rightarrow> (Inl e, [converted_path], fs2, [])
                          | (Inr chunks, fs2) \<Rightarrow>
                              (case transcribe_chunks env fs2 chunks [] [] of
                                 (Inl e, calls) \<Rightarrow> (Inl e, [converted_path] @ chunks, fs2, calls)
                               | (Inr texts, calls) \<Rightarrow>
                                   (Inr (make_result env (join [32] texts) lang d (length chunks)),
                                    [converted_path] @ chunks, fs2, calls)))
                    else (case asr_transcribe env fs1 converted_path of
                            Inl e \<Rightarrow> (Inl e, [converted_path], fs1, [converted_path])
                          | Inr full_text \<Rightarrow>
                              (Inr (make_result env full_text lang d 1),
                               [converted_path], fs1, [converted_path]))))"

text \<open>The \<open>except\<close> clauses of \<open>transcribe\<close>: what is raised for an exception of the block.\<close>

definition transcribe_except :: "exn \<Rightarrow> exn" where
  "transcribe_except e =
     (case e of
        TranscriptionError m c \<Rightarrow> TranscriptionError m c
      | AudioProcessingError m \<Rightarrow> TranscriptionError m ''AUDIO_PROCESSING_ERROR''
      | OtherException m \<Rightarrow>
          TranscriptionError (cps ''Failed to transcribe audio: '' @ m) ''TRANSCRIPTION_FAILED'')"

text \<open>\<open>transcribe\<close>: the block, its \<open>except\<close> clauses, and \<open>finally\<close> the cleanup of \<open>temp_files\<close>.\<close>

definition transcribe :: "env \<Rightarrow> settings \<Rightarrow> fs \<Rightarrow> path \<Rightarrow> ustring option
    \<Rightarrow> (exn + transcription_result) \<times> fs \<times> path list" where
  "transcribe env cfg fs audio_path lang =
     (case transcribe_try env cfg fs audio_path lang of
        (r, temp_files, fs', calls) \<Rightarrow>
          ((case r of Inl e \<Rightarrow> Inl (transcribe_except e) | Inr res \<Rightarrow> Inr res),
           cleanup_files env fs' temp_files, calls))"

section \<open>The endpoint (\<open>main.py\<close>)\<close>

record upload =
  filename :: "ustring option"
  upload_file :: "ustring + nat list"
  size_bytes :: "nat option"

record transcription_data =
  data_text :: ustring
  data_language :: ustring
  data_duration :: real
  data_processing_time_ms :: int

record error_detail =
  code :: string
  message :: ustring
  details :: "ustring option"

datatype response = TranscriptionResponse transcription_data | HTTPException nat error_detail

text \<open>The \<open>except\<close> clauses of the endpoint.\<close>

definition endpoint_except :: "exn \<Rightarrow> response" where
  "endpoint_except e =
     (case e of
        TranscriptionError m c \<Rightarrow> HTTPException 500 \<lparr>code = c, message = m, details = None\<rparr>
      | AudioProcessingError m \<Rightarrow>
          HTTPException 400 \<lparr>code = ''AUDIO_PROCESSING_ERROR'', message = m, details = None\<rparr>
      | OtherException m \<Rightarrow>
          HTTPException 500 \<lparr>code = ''INTERNAL_ERROR'',
                             message = cps ''Failed to transcribe audio'', details = Some m\<rparr>)"

definition transcribe_audio :: "env \<Rightarrow> settings \<Rightarrow> fs \<Rightarrow> upload \<Rightarrow> ustring option
    \<Rightarrow> response \<times> fs \<times> path list" where
  "transcribe_audio env cfg fs audio lang =
     (case filename audio of
        None \<Rightarrow>
          (HTTPException 400 \<lparr>code = ''MISSING_FILENAME'',
             message = cps ''Audio file must have a filename'', details = None\<rparr>, fs, [])
      | Some fname \<Rightarrow>
          if fname = []
          then (HTTPException 400 \<lparr>code = ''MISSING_FILENAME'',
                  message = cps ''Audio file must have a filename'', details = None\<rparr>, fs, [])
          else if \<not> validate_format env cfg fname
          then (HTTPException 400 \<lparr>code = ''INVALID_AUDIO_FORMAT'',
                  message = cps ''Unsupported audio format. Supported: ''
                              @ join (cps '', '') (supported_formats cfg),
                  details = None\<rparr>, fs, [])
          else if (case size_bytes audio of
                     None \<Rightarrow> False
                   | Some sz \<Rightarrow> sz \<noteq> 0 \<and> int sz > max_file_size_mb cfg * 1024 * 1024)
          then (HTTPException 413 \<lparr>code = ''FILE_TOO_LARGE'',
                  message = cps ''Audio file exceeds maximum size of ''
                              @ str_int (max_file_size_mb cfg) @ cps ''MB'',
                  details = None\<rparr>, fs, [])
          else (case save_upload env cfg fs (upload_file audio) fname of
                  (Inl e, fs1) \<Rightarrow> (endpoint_except e, fs1, [])
                | (Inr saved_path, fs1) \<Rightarrow>
                    (case transcribe env cfg fs1 saved_path lang of
                       (Inl e, fs2, calls) \<Rightarrow>
                         (endpoint_except e, cleanup_file env fs2 saved_path, calls)
                     | (Inr res, fs2, calls) \<Rightarrow>
                         (TranscriptionResponse
                            \<lparr>data_text = result_text res, data_language = language res,
                             data_duration = duration res,
                             data_processing_time_ms = processing_time_ms res\<rparr>,
                          cleanup_file env fs2 saved_path, calls))))"

section \<open>The words of the specification\<close>

text \<open>
  The language heuristic in the words of the specification: \<open>en\<close> for a text with no
  alphabetic code point, \<open>ru\<close> when the ratio of Cyrillic code points to alphabetic code
  points exceeds 0.3, \<open>en\<close> otherwise.
\<close>

definition heuristic_language :: "env \<Rightarrow> ustring \<Rightarrow> ustring" where
  "heuristic_language env s =
     (let total_alpha = length (filter (isalpha env) s);
          cyrillic = length (filter is_cyrillic s)
      in if total_alpha = 0 then cps ''en''
         else if real cyrillic / real total_alpha > 3 / 10 then cps ''ru'' else cps ''en'')"

text \<open>The file system once the loop of the chunker has written the chunk of index \<open>i\<close>.\<close>

definition write_chunk :: "path \<Rightarrow> real list \<Rightarrow> int \<Rightarrow> int \<Rightarrow> nat \<Rightarrow> fs \<Rightarrow> fs" where
  "write_chunk ap y sr cs i f =
     f(chunk_path ap i \<mapsto> Wav sr (py_slice y (int i * cs) (min ((int i + 1) * cs) (int (length y)))))"

text \<open>
  The chunks in the words of the specification: chunk \<open>i\<close> covers the samples from
  \<open>i * chunk_samples\<close> up to, and without, \<open>min ((i + 1) * chunk_samples) total_samples\<close>.
\<close>

definition chunk_range :: "nat \<Rightarrow> nat \<Rightarrow> nat \<Rightarrow> nat \<times> nat" where
  "chunk_range tot chunk_samples i = (i * chunk_samples, min ((i + 1) * chunk_samples) tot)"

definition samples_in :: "'a list \<Rightarrow> nat \<times> nat \<Rightarrow> 'a list" where
  "samples_in y r = drop (fst r) (take (snd r) y)"

text \<open>
  The extension of a saved upload in the words of the specification: the lowercased
  extension of the original filename, and \<open>.wav\<close> when the filename has none.
\<close>

definition saved_extension :: "env \<Rightarrow> ustring \<Rightarrow> ustring" where
  "saved_extension env fname =
     (if suffix (path_of fname) = [] then cps ''.wav'' else lower env (suffix (path_of fname)))"

text \<open>
  The paths a run may create for an output path \<open>out\<close> of the conversion: \<open>out\<close> and
  the chunks named after it. A world leaves nothing behind when no failing write of the
  converter or the chunker leaves a truncated file.
\<close>

definition artifact_paths :: "path \<Rightarrow> path set" where
  "artifact_paths out = insert out (range (chunk_path out))"

definition no_leftovers :: "env \<Rightarrow> bool" where
  "no_leftovers env \<longleftrightarrow>
     (\<forall>q e. pydub_export env q \<noteq> Some (WriteFault e True)
          \<and> sf_write env q \<noteq> Some (WriteFault e True))"

section \<open>Example worlds\<close>

text \<open>
  An example world for concrete runs: the sample rate is 1 Hz, an upload of \<open>n\<close> bytes
  lasts \<open>n\<close> seconds and decodes to its bytes as samples, no write and no unlink fails,
  and the engine reads the samples of a WAV file as the code points of its text.
\<close>

definition ascii_lower :: "ustring \<Rightarrow> ustring" where
  "ascii_lower s = map (\<lambda>c. if 65 \<le> c \<and> c \<le> 90 then c + 32 else c) s"

definition demo_env :: env where
  "demo_env =
     \<lparr>isalpha = (\<lambda>c. (65 \<le> c \<and> c \<le> 90) \<or> (97 \<le> c \<and> c \<le> 122) \<or> (1040 \<le> c \<and> c \<le> 1103)),
      isspace = (\<lambda>c. c = 32 \<or> (9 \<le> c \<and> c \<le> 13)),
      str_lower = ascii_lower,
      uuid4 = cps ''0b1e'',
      path_repr = name,
      elapsed_ms = 7,
      librosa_get_duration =
        (\<lambda>c. case c of Some (Bytes b) \<Rightarrow> Inr (real (length b)) | _ \<Rightarrow> Inl (cps ''no audio'')),
      pydub_from_file =
        (\<lambda>c sr. case c of Some (Bytes b) \<Rightarrow> Inr (map real b) | _ \<Rightarrow> Inl (cps ''no audio'')),
      pydub_export = (\<lambda>p. None),
      librosa_load =
        (\<lambda>c sr. case c of Some (Wav r y) \<Rightarrow> Inr y | _ \<Rightarrow> Inl (cps ''no audio'')),
      sf_write = (\<lambda>p. None),
      open_write = (\<lambda>p. None),
      unlink_fault = (\<lambda>p. False),
      model_loaded = True,
      recognizer =
        (\<lambda>c. case c of Some (Wav r y) \<Rightarrow> Inr (map (\<lambda>x. nat \<lfloor>x\<rfloor>) y) | _ \<Rightarrow> Inl (cps ''no audio''))\<rparr>"

definition demo_cfg :: "int \<Rightarrow> settings" where
  "demo_cfg chunk =
     \<lparr>chunk_size_seconds = chunk, sample_rate = 1, max_audio_duration_seconds = 7200,
      max_file_size_mb = 100, temp_dir = cps ''/app/temp'',
      supported_formats =
        map cps [''mp3'', ''wav'', ''ogg'', ''m4a'', ''flac'', ''opus'', ''webm'', ''oga'']\<rparr>"

definition demo_path :: path where
  "demo_path = Path (cps ''/app/temp'') (cps ''0b1e.mp3'')"

definition demo_fs :: "nat list \<Rightarrow> fs" where
  "demo_fs bytes = Map.empty(demo_path \<mapsto> Bytes bytes)"

text \<open>Three recordings: "privet kak dela" in Cyrillic letters, "hello world", and a tape
  of 25 seconds that says "hello", is silent for 15 seconds, and says "world".\<close>

definition privet :: "nat list" where
  "privet = [1087, 1088, 1080, 1074, 1077, 1090, 32, 1082, 1072, 1082, 32, 1076, 1077, 1083, 1072]"

definition hello_world :: "nat list" where
  "hello_world = [104, 101, 108, 108, 111, 32, 119, 111, 114, 108, 100]"

definition tape :: "nat list" where
  "tape = [104, 101, 108, 108, 111, 32, 32, 32, 32, 32,
           32, 32, 32, 32, 32, 32, 32, 32, 32, 32,
           119, 111, 114, 108, 100]"

text \<open>A canonical audio of 125 seconds at 1 Hz.\<close>

definition wav125 :: path where
  "wav125 = Path (cps ''/app/temp'') (cps ''0b1e.converted.wav'')"

definition fs125 :: fs where
  "fs125 = Map.empty(wav125 \<mapsto> Wav 1 (replicate 125 0))"

text \<open>The example world with a probe that measures \<open>d\<close> seconds.\<close>

definition probe_env :: "real \<Rightarrow> env" where
  "probe_env d = demo_env\<lparr>librosa_get_duration := (\<lambda>c. Inr d)\<rparr>"

text \<open>An upload with a name, and worlds whose engine raises or is not loaded.\<close>

definition demo_upload :: "ustring \<Rightarrow> nat list \<Rightarrow> upload" where
  "demo_upload fname bytes =
     \<lparr>filename = Some fname, upload_file = Inr bytes, size_bytes = Some (length bytes)\<rparr>"

definition crash_env :: env where
  "crash_env = demo_env\<lparr>recognizer := (\<lambda>c. Inl (cps ''decoder crashed''))\<rparr>"

definition unloaded_env :: env where
  "unloaded_env = demo_env\<lparr>model_loaded := False\<rparr>"

text \<open>
  Worlds in which the conversion fails: no decoder reads the upload; only the first
  decoder fails; both decode and neither can write.
\<close>

definition undecodable_env :: env where
  "undecodable_env =
     demo_env\<lparr>pydub_from_file := (\<lambda>c sr. Inl (cps ''ffmpeg not found'')),
              librosa_load := (\<lambda>c sr. Inl (cps ''format not recognised''))\<rparr>"

definition fallback_env :: env where
  "fallback_env =
     demo_env\<lparr>pydub_from_file := (\<lambda>c sr. Inl (cps ''ffmpeg not found'')),
              librosa_load :=
                (\<lambda>c sr. case c of Some (Bytes b) \<Rightarrow> Inr (map real b)
                         | Some (Wav r y) \<Rightarrow> Inr y
                         | _ \<Rightarrow> Inl (cps ''no audio''))\<rparr>"

definition disk_full_env :: env where
  "disk_full_env =
     fallback_env\<lparr>pydub_from_file := pydub_from_file demo_env,
                  pydub_export := (\<lambda>p. Some (WriteFault (cps ''disk full'') False)),
                  sf_write := (\<lambda>p. Some (WriteFault (cps ''disk full'') False))\<rparr>"

text \<open>
  A world in which the write of chunk \<open>k\<close> of the audio of 125 seconds fails and the
  unlink of the paths in \<open>stuck\<close> fails.
\<close>

definition chunk_fault_env :: "nat \<Rightarrow> (path \<Rightarrow> bool) \<Rightarrow> env" where
  "chunk_fault_env k stuck =
     demo_env\<lparr>sf_write := (\<lambda>q. if q = chunk_path wav125 k
                               then Some (WriteFault (cps ''disk full'') False) else None),
              unlink_fault := stuck\<rparr>"

text \<open>The example world in which every unlink fails.\<close>

definition stuck_env :: env where
  "stuck_env = demo_env\<lparr>unlink_fault := (\<lambda>q. True)\<rparr>"

section \<open>Basic facts\<close>

lemmas demo_defs = demo_env_def demo_cfg_def demo_fs_def demo_path_def

lemmas path_defs = with_suffix_def suffix_def stem_def rfind_def cps_def chunk_path_def
  fmt_04d_def digits.simps joinpath_def

lemmas run_defs = transcribe_def transcribe_try_def get_audio_duration_def convert_to_wav_def
  pydub_strategy_def librosa_strategy_def write_file_def asr_transcribe_def strip_def
  make_result_def detect_language_def is_cyrillic_def split_audio_def py_slice_def

lemma upt3: "[0..<3] = [0, 1, 2]"
  by (simp add: upt_rec)

lemma replicate3: "replicate 3 x = [x, x, x]"
  by (simp add: numeral_3_eq_3)

lemma run_tuple: "fst t = a \<Longrightarrow> t = (a, fst (snd t), snd (snd t))"
  by (cases t) auto

lemma write_file_other: "write_file flt fs p c = (r, fs') \<Longrightarrow> q \<noteq> p \<Longrightarrow> fs' q = fs q"
  by (auto simp: write_file_def split: option.splits write_fault.splits if_splits)

lemma write_file_ok: "write_file flt fs p c = (Inr u, fs') \<Longrightarrow> fs' = fs(p \<mapsto> c) \<and> flt = None"
  by (auto simp: write_file_def split: option.splits write_fault.splits if_splits)

lemma snd_unlink: "snd (unlink env fs p) = (if unlink_fault env p then fs else fs(p := None))"
  by (auto simp: unlink_def)

lemma cleanup_file_eq: "cleanup_file env fs p = (if unlink_fault env p then fs else fs(p := None))"
  by (auto simp: cleanup_file_def snd_unlink)

lemma cleanup_files_apply:
  "cleanup_files env fs ps q = (if q \<in> set ps \<and> \<not> unlink_fault env q then None else fs q)"
  by (induction ps arbitrary: fs) (auto simp: cleanup_file_eq)

lemma unlink_chunks_apply:
  "unlink_chunks env ps fs q = (if q \<in> set ps \<and> \<not> unlink_fault env q then None else fs q)"
  by (induction ps arbitrary: fs) (auto simp: snd_unlink)

subsection \<open>The recognizer loop\<close>

lemma transcribe_chunks_Inr:
  "transcribe_chunks env fs chunks texts calls = (Inr texts', calls') \<Longrightarrow>
   \<exists>ts. map (asr_transcribe env fs) chunks = map Inr ts \<and>
        texts' = texts @ filter (\<lambda>t. t \<noteq> []) ts \<and> calls' = calls @ chunks"
proof (induction chunks arbitrary: texts calls)
  case Nil
  then show ?case by simp
next
  case (Cons c chunks)
  from Cons.prems obtain t where t: "asr_transcribe env fs c = Inr t"
    and rest: "transcribe_chunks env fs chunks (if t \<noteq> [] then texts @ [t] else texts)
                 (calls @ [c]) = (Inr texts', calls')"
    by (auto split: sum.splits)
  from Cons.IH[OF rest] obtain ts where ts: "map (asr_transcribe env fs) chunks = map Inr ts"
    "texts' = (if t \<noteq> [] then texts @ [t] else texts) @ filter (\<lambda>t. t \<noteq> []) ts"
    "calls' = (calls @ [c]) @ chunks"
    by blast
  show ?case
    by (rule exI[of _ "t # ts"]) (use t ts in auto)
qed

lemma transcribe_chunks_Inl:
  "transcribe_chunks env fs chunks texts calls = (Inl e, calls') \<Longrightarrow>
   \<exists>k < length chunks. calls' = calls @ take (Suc k) chunks
      \<and> asr_transcribe env fs (chunks ! k) = Inl e"
proof (induction chunks arbitrary: texts calls)
  case Nil
  then show ?case by simp
next
  case (Cons c chunks)
  show ?case
  proof (cases "asr_transcribe env fs c")
    case (Inl e')
    with Cons.prems show ?thesis by (intro exI[of _ 0]) auto
  next
    case (Inr t)
    with Cons.prems have "transcribe_chunks env fs chunks
        (if t \<noteq> [] then texts @ [t] else texts) (calls @ [c]) = (Inl e, calls')"
      by simp
    from Cons.IH[OF this] obtain k where "k < length chunks"
      "calls' = (calls @ [c]) @ take (Suc k) chunks"
      "asr_transcribe env fs (chunks ! k) = Inl e" by blast
    then show ?thesis by (intro exI[of _ "Suc k"]) auto
  qed
qed

subsection \<open>Successful runs\<close>

lemma transcribe_try_Inr:
  assumes "transcribe_try env cfg fs p lang = (Inr res, temp_files, fs1, calls)"
  shows "\<exists>d conv fsc. get_audio_duration env fs p = Inr d
           \<and> \<not> d > real_of_int (max_audio_duration_seconds cfg) \<and> \<not> d < 1 / 10
           \<and> convert_to_wav env cfg fs p = (Inr conv, fsc)
           \<and> (if d > real_of_int (chunk_size_seconds cfg)
              then \<exists>chunks texts.
                     split_audio env cfg fsc conv (chunk_size_seconds cfg) = (Inr chunks, fs1)
                     \<and> transcribe_chunks env fs1 chunks [] [] = (Inr texts, calls)
                     \<and> res = make_result env (join [32] texts) lang d (length chunks)
                     \<and> temp_files = conv # chunks
              else \<exists>full_text. asr_transcribe env fsc conv = Inr full_text \<and> fs1 = fsc
                     \<and> res = make_result env full_text lang d 1
                     \<and> temp_files = [conv] \<and> calls = [conv])"
  using assms unfolding transcribe_try_def
  by (auto split: sum.splits prod.splits if_splits)

lemma transcribe_Inr:
  "transcribe env cfg fs p lang = (Inr res, fs', calls) \<longleftrightarrow>
   (\<exists>temp_files fs1. transcribe_try env cfg fs p lang = (Inr res, temp_files, fs1, calls)
       \<and> fs' = cleanup_files env fs1 temp_files)"
  unfolding transcribe_def by (auto split: prod.splits sum.splits)

lemma transcribe_try_result:
  assumes "transcribe_try env cfg fs p lang = (Inr res, temp_files, fs1, calls)"
  shows "\<exists>full_text d n. res = make_result env full_text lang d n"
  using transcribe_try_Inr[OF assms] by (auto split: if_splits)

section \<open>The language of a result\<close>

lemma detect_language_heuristic: "detect_language env s = heuristic_language env s"
  by (cases s) (auto simp: detect_language_def heuristic_language_def Let_def)

lemma filter_dropWhile:
  "\<forall>c. sp c \<longrightarrow> \<not> P c \<Longrightarrow> filter P (dropWhile sp s) = filter P s"
  by (induction s) auto

lemma filter_strip:
  assumes "\<forall>c. isspace env c \<longrightarrow> \<not> P c"
  shows "filter P (strip env s) = filter P s"
proof -
  have "filter P (strip env s)
      = rev (filter P (dropWhile (isspace env) (rev (dropWhile (isspace env) s))))"
    by (simp add: strip_def rev_filter)
  also have "\<dots> = rev (filter P (rev (dropWhile (isspace env) s)))"
    by (simp add: filter_dropWhile[OF assms])
  also have "\<dots> = filter P (dropWhile (isspace env) s)"
    by (simp add: rev_filter)
  also have "\<dots> = filter P s"
    by (simp add: filter_dropWhile[OF assms])
  finally show ?thesis .
qed

lemma heuristic_language_strip:
  assumes "\<forall>c. isspace env c \<longrightarrow> \<not> isalpha env c \<and> \<not> is_cyrillic c"
  shows "heuristic_language env (strip env s) = heuristic_language env s"
proof -
  have a: "filter (isalpha env) (strip env s) = filter (isalpha env) s"
    by (rule filter_strip) (use assms in blast)
  have b: "filter is_cyrillic (strip env s) = filter is_cyrillic s"
    by (rule filter_strip) (use assms in blast)
  show ?thesis by (simp add: heuristic_language_def a b)
qed

lemma make_result_language:
  "language (make_result env full_text lang d n) =
     (case lang of None \<Rightarrow> heuristic_language env full_text
      | Some l \<Rightarrow> if l = [] then heuristic_language env full_text else l)"
  by (simp add: make_result_def detect_language_heuristic split: option.splits)

lemma demo_run_privet:
  "fst (transcribe demo_env (demo_cfg 60) (demo_fs privet) demo_path None)
   = Inr \<lparr>result_text = privet, language = cps ''ru'', duration = 15, chunks_processed = 1,
          processing_time_ms = 7\<rparr>"
  by (simp add: run_defs demo_defs path_defs privet_def)

lemma demo_run_hello:
  "fst (transcribe demo_env (demo_cfg 60) (demo_fs hello_world) demo_path (Some []))
   = Inr \<lparr>result_text = hello_world, language = cps ''en'', duration = 11, chunks_processed = 1,
          processing_time_ms = 7\<rparr>"
  by (simp add: run_defs demo_defs path_defs hello_world_def)

lemma demo_run_override:
  "fst (transcribe demo_env (demo_cfg 60) (demo_fs privet) demo_path (Some (cps ''fr'')))
   = Inr \<lparr>result_text = privet, language = cps ''fr'', duration = 15, chunks_processed = 1,
          processing_time_ms = 7\<rparr>"
  by (simp add: run_defs demo_defs path_defs privet_def)

text \<open>
  C5. In a successful run a language override that is not empty is the language of the
  result, whatever the text. Without one (no override, or the empty string) the language
  is the heuristic's value on the assembled text, of which the text of the result is the
  stripped form; and since no whitespace character is a letter, it is the heuristic's
  value on the text of the result as well. The division and the comparison with 0.3 are
  exact here; the floating point ones of the source agree with them for every text of
  fewer than \<open>10^15\<close> characters.
\<close>

theorem language_of_successful_run:
  assumes "transcribe env cfg fs p lang = (Inr res, fs', calls)"
  shows "(\<forall>l. lang = Some l \<and> l \<noteq> [] \<longrightarrow> language res = l)
       \<and> (lang = None \<or> lang = Some [] \<longrightarrow>
            (\<exists>full_text. result_text res = strip env full_text
                \<and> language res = heuristic_language env full_text)
          \<and> ((\<forall>c. isspace env c \<longrightarrow> \<not> isalpha env c \<and> \<not> is_cyrillic c)
                \<longrightarrow> language res = heuristic_language env (result_text res)))"
proof -
  from assms obtain temp_files fs1 where
    "transcribe_try env cfg fs p lang = (Inr res, temp_files, fs1, calls)"
    unfolding transcribe_Inr by blast
  from transcribe_try_result[OF this] obtain full_text d n where
    res: "res = make_result env full_text lang d n" by blast
  have rt: "result_text res = strip env full_text"
    by (simp add: res make_result_def)
  have l: "language res = (case lang of None \<Rightarrow> heuristic_language env full_text
      | Some l \<Rightarrow> if l = [] then heuristic_language env full_text else l)"
    by (simp add: res make_result_language)
  have o1: "\<forall>l. lang = Some l \<and> l \<noteq> [] \<longrightarrow> language res = l"
    using l by auto
  have o2: "lang = None \<or> lang = Some [] \<Longrightarrow> language res = heuristic_language env full_text"
    using l by auto
  show ?thesis
    using o1 o2 rt heuristic_language_strip[of env full_text] by auto
qed

theorem language_of_successful_run_witness:
  "(\<exists>res fs' calls.
      transcribe demo_env (demo_cfg 60) (demo_fs privet) demo_path None = (Inr res, fs', calls)
      \<and> result_text res = privet
      \<and> language res = heuristic_language demo_env (result_text res)
      \<and> language res = cps ''ru'')
   \<and> (\<exists>res fs' calls.
      transcribe demo_env (demo_cfg 60) (demo_fs hello_world) demo_path (Some [])
        = (Inr res, fs', calls)
      \<and> result_text res = hello_world
      \<and> language res = heuristic_language demo_env (result_text res)
      \<and> language res = cps ''en'')
   \<and> (\<exists>res fs' calls.
      transcribe demo_env (demo_cfg 60) (demo_fs privet) demo_path (Some (cps ''fr''))
        = (Inr res, fs', calls)
      \<and> result_text res = privet
      \<and> language res = cps ''fr'')"
proof -
  let ?ru = "\<lparr>result_text = privet, language = cps ''ru'', duration = 15,
              chunks_processed = 1, processing_time_ms = 7\<rparr>"
  let ?en = "\<lparr>result_text = hello_world, language = cps ''en'', duration = 11,
              chunks_processed = 1, processing_time_ms = 7\<rparr>"
  let ?fr = "\<lparr>result_text = privet, language = cps ''fr'', duration = 15,
              chunks_processed = 1, processing_time_ms = 7\<rparr>"
  have tables: "\<forall>c. isspace demo_env c \<longrightarrow> \<not> isalpha demo_env c \<and> \<not> is_cyrillic c"
    by (auto simp: demo_env_def is_cyrillic_def)
  note r1 = run_tuple[OF demo_run_privet]
  note r2 = run_tuple[OF demo_run_hello]
  note r3 = run_tuple[OF demo_run_override]
  have l1: "language ?ru = heuristic_language demo_env (result_text ?ru)"
    using language_of_successful_run[OF r1] tables by blast
  have l2: "language ?en = heuristic_language demo_env (result_text ?en)"
    using language_of_successful_run[OF r2] tables by blast
  have l3: "language ?fr = cps ''fr''"
    using language_of_successful_run[OF r3] by (simp add: cps_def)
  have c1: "\<exists>res fs' calls.
      transcribe demo_env (demo_cfg 60) (demo_fs privet) demo_path None = (Inr res, fs', calls)
      \<and> result_text res = privet
      \<and> language res = heuristic_language demo_env (result_text res)
      \<and> language res = cps ''ru''"
    by (rule exI[of _ ?ru], intro exI conjI, rule r1) (use l1 in simp_all)
  have c2: "\<exists>res fs' calls.
      transcribe demo_env (demo_cfg 60) (demo_fs hello_world) demo_path (Some [])
        = (Inr res, fs', calls)
      \<and> result_text res = hello_world
      \<and> language res = heuristic_language demo_env (result_text res)
      \<and> language res = cps ''en''"
    by (rule exI[of _ ?en], intro exI conjI, rule r2) (use l2 in simp_all)
  have c3: "\<exists>res fs' calls.
      transcribe demo_env (demo_cfg 60) (demo_fs privet) demo_path (Some (cps ''fr''))
        = (Inr res, fs', calls)
      \<and> result_text res = privet
      \<and> language res = cps ''fr''"
    by (rule exI[of _ ?fr], intro exI conjI, rule r3) (use l3 in simp_all)
  from c1 c2 c3 show ?thesis by blast
qed

section \<open>The text of a result\<close>

text \<open>
  C6. In a successful run the recognizer was called on the files of \<open>calls\<close>, in that
  order (the chunks in index order, or the converted file alone), and returned the texts
  \<open>ts\<close>; the text of the result is the texts of \<open>ts\<close> that are not empty, in that
  order, joined by one space, and stripped. An empty text is left out and fails nothing.
\<close>

theorem assembled_text_of_successful_run:
  assumes "transcribe env cfg fs p lang = (Inr res, fs', calls)"
  shows "\<exists>temp_files fs1 ts.
           transcribe_try env cfg fs p lang = (Inr res, temp_files, fs1, calls)
         \<and> map (asr_transcribe env fs1) calls = map Inr ts
         \<and> result_text res = strip env (join [32] (filter (\<lambda>t. t \<noteq> []) ts))"
proof -
  from assms obtain temp_files fs1 where
    tr: "transcribe_try env cfg fs p lang = (Inr res, temp_files, fs1, calls)"
    unfolding transcribe_Inr by blast
  from transcribe_try_Inr[OF tr] obtain d conv fsc where
    br: "if d > real_of_int (chunk_size_seconds cfg)
              then \<exists>chunks texts.
                     split_audio env cfg fsc conv (chunk_size_seconds cfg) = (Inr chunks, fs1)
                     \<and> transcribe_chunks env fs1 chunks [] [] = (Inr texts, calls)
                     \<and> res = make_result env (join [32] texts) lang d (length chunks)
                     \<and> temp_files = conv # chunks
              else \<exists>full_text. asr_transcribe env fsc conv = Inr full_text \<and> fs1 = fsc
                     \<and> res = make_result env full_text lang d 1
                     \<and> temp_files = [conv] \<and> calls = [conv]"
    by blast
  have "\<exists>ts. map (asr_transcribe env fs1) calls = map Inr ts
         \<and> result_text res = strip env (join [32] (filter (\<lambda>t. t \<noteq> []) ts))"
  proof (cases "d > real_of_int (chunk_size_seconds cfg)")
    case True
    with br obtain chunks texts where
      loop: "transcribe_chunks env fs1 chunks [] [] = (Inr texts, calls)"
      and res: "res = make_result env (join [32] texts) lang d (length chunks)"
      by auto
    from transcribe_chunks_Inr[OF loop] obtain ts where
      "map (asr_transcribe env fs1) chunks = map Inr ts"
      "texts = filter (\<lambda>t. t \<noteq> []) ts" "calls = chunks"
      by auto
    then show ?thesis
      by (intro exI[of _ ts]) (simp add: res make_result_def)
  next
    case False
    with br obtain full_text where
      "asr_transcribe env fs1 conv = Inr full_text" "calls = [conv]"
      "res = make_result env full_text lang d 1"
      by auto
    then show ?thesis
      by (intro exI[of _ "[full_text]"]) (simp add: make_result_def)
  qed
  with tr show ?thesis by blast
qed

lemma demo_run_tape:
  "fst (transcribe demo_env (demo_cfg 10) (demo_fs tape) demo_path None)
   = Inr \<lparr>result_text = cps ''hello world'', language = cps ''en'', duration = 25,
          chunks_processed = 3, processing_time_ms = 7\<rparr>"
  by (simp add: run_defs demo_defs path_defs tape_def Let_def upt3)

lemma demo_try_tape_calls:
  "snd (snd (snd (transcribe_try demo_env (demo_cfg 10) (demo_fs tape) demo_path None)))
   = map (chunk_path (Path (cps ''/app/temp'') (cps ''0b1e.converted.wav''))) [0, 1, 2]"
  by (simp add: run_defs demo_defs path_defs tape_def Let_def upt3 replicate3)

lemma demo_try_tape_texts:
  "map (asr_transcribe demo_env
          (fst (snd (snd (transcribe_try demo_env (demo_cfg 10) (demo_fs tape) demo_path None)))))
       (map (chunk_path (Path (cps ''/app/temp'') (cps ''0b1e.converted.wav''))) [0, 1, 2])
   = map Inr [cps ''hello'', [], cps ''world'']"
  by (simp add: run_defs demo_defs path_defs tape_def Let_def upt3 replicate3)

theorem assembled_text_of_successful_run_witness:
  "\<exists>res fs' calls temp_files fs1.
      transcribe demo_env (demo_cfg 10) (demo_fs tape) demo_path None = (Inr res, fs', calls)
    \<and> transcribe_try demo_env (demo_cfg 10) (demo_fs tape) demo_path None
         = (Inr res, temp_files, fs1, calls)
    \<and> map (asr_transcribe demo_env fs1) calls = map Inr [cps ''hello'', [], cps ''world'']
    \<and> result_text res
         = strip demo_env (join [32] (filter (\<lambda>t. t \<noteq> []) [cps ''hello'', [], cps ''world'']))
    \<and> result_text res = cps ''hello world''"
proof -
  let ?res = "\<lparr>result_text = cps ''hello world'', language = cps ''en'', duration = 25,
          chunks_processed = 3, processing_time_ms = 7\<rparr>"
  note r = run_tuple[OF demo_run_tape]
  from assembled_text_of_successful_run[OF r] obtain temp_files fs1 ts where
    tr: "transcribe_try demo_env (demo_cfg 10) (demo_fs tape) demo_path None
         = (Inr ?res, temp_files, fs1, snd (snd (transcribe demo_env (demo_cfg 10) (demo_fs tape) demo_path None)))"
    and ts: "map (asr_transcribe demo_env fs1) (snd (snd (transcribe demo_env (demo_cfg 10) (demo_fs tape) demo_path None))) = map Inr ts"
    and rt: "result_text ?res = strip demo_env (join [32] (filter (\<lambda>t. t \<noteq> []) ts))"
    by blast
  have fs1: "fs1 = fst (snd (snd (transcribe_try demo_env (demo_cfg 10) (demo_fs tape) demo_path None)))"
    by (simp add: tr)
  have calls: "snd (snd (transcribe demo_env (demo_cfg 10) (demo_fs tape) demo_path None))
     = map (chunk_path (Path (cps ''/app/temp'') (cps ''0b1e.converted.wav''))) [0, 1, 2]"
    using demo_try_tape_calls by (simp add: tr)
  have "map Inr ts = (map Inr [cps ''hello'', [], cps ''world''] :: (exn + ustring) list)"
    using ts demo_try_tape_texts unfolding fs1[symmetric] calls by simp
  then have ts_eq: "ts = [cps ''hello'', [], cps ''world'']"
    by (auto simp: map_eq_Cons_conv)
  show ?thesis
    apply (rule exI[of _ ?res])
    apply (intro exI conjI)
        apply (rule r)
       apply (rule tr)
      apply (use ts ts_eq in simp)
     apply (use rt ts_eq in simp)
    apply simp
    done
qed

section \<open>The chunks of an audio\<close>

subsection \<open>Chunk names\<close>

lemma foldl_digits: "foldl (\<lambda>a d. 10 * a + (d - 48)) 0 (digits n) = n"
proof (induction n rule: digits.induct)
  case (1 n)
  show ?case
  proof (cases "n < 10")
    case True
    then show ?thesis by (subst digits.simps) simp
  next
    case False
    with "1.IH" show ?thesis by (subst digits.simps) simp
  qed
qed

lemma foldl_zeros: "foldl (\<lambda>a d. 10 * a + (d - 48)) 0 (replicate k 48) = (0::nat)"
  by (induction k) simp_all

lemma foldl_fmt_04d: "foldl (\<lambda>a d. 10 * a + (d - 48)) 0 (fmt_04d i) = i"
  by (simp add: fmt_04d_def foldl_zeros foldl_digits)

lemma fmt_04d_inj: "fmt_04d i = fmt_04d j \<Longrightarrow> i = j"
  by (metis foldl_fmt_04d)

lemma chunk_path_inj: "chunk_path ap i = chunk_path ap j \<longleftrightarrow> i = j"
  by (auto simp: chunk_path_def dest: fmt_04d_inj)

lemma distinct_chunk_paths: "distinct idxs \<Longrightarrow> distinct (map (chunk_path ap) idxs)"
  by (simp add: distinct_map inj_on_def chunk_path_inj)

subsection \<open>The chunk loop\<close>

lemma split_loop_ok:
  "\<forall>i\<in>set idxs. sf_write env (chunk_path ap i) = None \<Longrightarrow>
   split_loop env ap y sr cs idxs chunks fs
     = (Inr (chunks @ map (chunk_path ap) idxs), fold (write_chunk ap y sr cs) idxs fs)"
  by (induction idxs arbitrary: chunks fs) (simp_all add: write_file_def write_chunk_def Let_def)

lemma split_loop_Inr:
  "split_loop env ap y sr cs idxs chunks fs = (Inr chunks', fs') \<Longrightarrow>
   (\<forall>i\<in>set idxs. sf_write env (chunk_path ap i) = None)"
proof (induction idxs arbitrary: chunks fs)
  case Nil
  then show ?case by simp
next
  case (Cons i idxs)
  from Cons.prems have w: "sf_write env (chunk_path ap i) = None"
    by (auto simp: write_file_def Let_def split: option.splits write_fault.splits prod.splits sum.splits)
  with Cons.prems have "split_loop env ap y sr cs idxs (chunks @ [chunk_path ap i])
      (write_chunk ap y sr cs i fs) = (Inr chunks', fs')"
    by (simp add: write_file_def write_chunk_def Let_def)
  from Cons.IH[OF this] w show ?case by simp
qed

lemma split_loop_Inl:
  "split_loop env ap y sr cs idxs chunks fs = (Inl (e, created), fs') \<Longrightarrow>
   \<exists>k<length idxs. created = chunks @ map (chunk_path ap) (take k idxs)
      \<and> (\<forall>i\<in>set (take k idxs). sf_write env (chunk_path ap i) = None)
      \<and> (\<exists>l. sf_write env (chunk_path ap (idxs ! k)) = Some (WriteFault e l)
            \<and> fs' = (if l then (fold (write_chunk ap y sr cs) (take k idxs) fs)
                                  (chunk_path ap (idxs ! k) \<mapsto> Truncated)
                      else fold (write_chunk ap y sr cs) (take k idxs) fs))"
proof (induction idxs arbitrary: chunks fs)
  case Nil
  then show ?case by simp
next
  case (Cons i idxs)
  show ?case
  proof (cases "sf_write env (chunk_path ap i)")
    case None
    with Cons.prems have "split_loop env ap y sr cs idxs (chunks @ [chunk_path ap i])
        (write_chunk ap y sr cs i fs) = (Inl (e, created), fs')"
      by (simp add: write_file_def write_chunk_def Let_def)
    from Cons.IH[OF this] obtain k l where k: "k < length idxs"
      "created = (chunks @ [chunk_path ap i]) @ map (chunk_path ap) (take k idxs)"
      "\<forall>j\<in>set (take k idxs). sf_write env (chunk_path ap j) = None"
      "sf_write env (chunk_path ap (idxs ! k)) = Some (WriteFault e l)"
      "fs' = (if l then (fold (write_chunk ap y sr cs) (take k idxs) (write_chunk ap y sr cs i fs))
                                  (chunk_path ap (idxs ! k) \<mapsto> Truncated)
                      else fold (write_chunk ap y sr cs) (take k idxs) (write_chunk ap y sr cs i fs))"
      by blast
    show ?thesis
      by (rule exI[of _ "Suc k"]) (use k None in auto)
  next
    case (Some flt)
    obtain e' l where flt: "flt = WriteFault e' l" by (cases flt)
    with Some Cons.prems have "e' = e" "created = chunks"
      "fs' = (if l then fs(chunk_path ap i \<mapsto> Truncated) else fs)"
      by (auto simp: write_file_def Let_def)
    then show ?thesis
      by (intro exI[of _ 0]) (use Some flt in auto)
  qed
qed

lemma fold_write_chunk_other:
  "q \<notin> chunk_path ap ` set idxs \<Longrightarrow> fold (write_chunk ap y sr cs) idxs fs q = fs q"
  by (induction idxs arbitrary: fs) (auto simp: write_chunk_def)

lemma fold_write_chunk_at:
  "i \<in> set idxs \<Longrightarrow>
   fold (write_chunk ap y sr cs) idxs fs (chunk_path ap i)
     = Some (Wav sr (py_slice y (int i * cs) (min ((int i + 1) * cs) (int (length y)))))"
proof (induction idxs arbitrary: fs)
  case Nil
  then show ?case by simp
next
  case (Cons j idxs)
  show ?case
  proof (cases "i \<in> set idxs")
    case True
    then show ?thesis using Cons.IH by simp
  next
    case False
    with Cons.prems have "j = i" by simp
    moreover have "chunk_path ap i \<notin> chunk_path ap ` set idxs"
      using False by (auto simp: chunk_path_inj)
    ultimately show ?thesis
      by (simp add: fold_write_chunk_other) (simp add: write_chunk_def)
  qed
qed

lemma fold_write_chunk_dom:
  "fs q \<noteq> None \<Longrightarrow> fold (write_chunk ap y sr cs) idxs fs q \<noteq> None"
  by (induction idxs arbitrary: fs) (auto simp: write_chunk_def)

subsection \<open>The ranges of the chunks\<close>

lemma py_slice_chunk_range:
  assumes "0 < cs"
  shows "py_slice y (int i * cs) (min ((int i + 1) * cs) (int (length y)))
       = samples_in y (chunk_range (length y) (nat cs) i)"
proof -
  have a: "nat (int i * cs) = i * nat cs"
    by (simp add: nat_mult_distrib)
  have "(int i + 1) * cs = int ((i + 1) * nat cs)"
    using assms by (simp add: algebra_simps)
  then have b: "nat (min ((int i + 1) * cs) (int (length y))) = min ((i + 1) * nat cs) (length y)"
    by (metis nat_int of_nat_min)
  show ?thesis
    unfolding py_slice_def samples_in_def chunk_range_def fst_conv snd_conv a b ..
qed

lemma num_chunks_upper:
  assumes "0 < cs"
  shows "tot \<le> nat \<lceil>real tot / real cs\<rceil> * cs"
proof -
  have "real tot \<le> of_int \<lceil>real tot / real cs\<rceil> * real cs"
    using assms by (intro ceiling_divide_upper) simp
  moreover have "0 \<le> \<lceil>real tot / real cs\<rceil>"
    by (simp add: zero_le_ceiling) (smt (verit) divide_nonneg_nonneg of_nat_0_le_iff)
  ultimately have "real tot \<le> real (nat \<lceil>real tot / real cs\<rceil> * cs)"
    by simp
  then show ?thesis by linarith
qed

lemma num_chunks_lower:
  assumes "0 < cs" "i < nat \<lceil>real tot / real cs\<rceil>"
  shows "i * cs < tot"
proof -
  have "(of_int \<lceil>real tot / real cs\<rceil> - 1) * real cs < real tot"
    using assms by (intro ceiling_divide_lower) simp
  moreover have "real i \<le> of_int \<lceil>real tot / real cs\<rceil> - 1"
    using assms(2) by linarith
  ultimately have "real i * real cs < real tot"
    using assms(1) by (smt (verit) mult_right_mono of_nat_0_le_iff)
  then have "real (i * cs) < real tot" by simp
  then show ?thesis by linarith
qed

lemma concat_chunks_take:
  "concat (map (\<lambda>i. samples_in y (chunk_range (length y) cs i)) [0..<n])
     = take (n * cs) y"
proof (induction n)
  case 0
  then show ?case by simp
next
  case (Suc n)
  have "take (n * cs) y @ drop (n * cs) (take (min (Suc n * cs) (length y)) y)
      = take (Suc n * cs) y"
  proof -
    have "take (min (Suc n * cs) (length y)) y = take (Suc n * cs) y"
      by (simp add: min_def)
    moreover have "take (n * cs) y = take (n * cs) (take (Suc n * cs) y)"
      by (simp add: min_def)
    ultimately show ?thesis
      by (metis append_take_drop_id)
  qed
  with Suc show ?case
    by (simp add: samples_in_def chunk_range_def)
qed

lemma concat_chunks:
  assumes "0 < cs"
  shows "concat (map (\<lambda>i. samples_in y (chunk_range (length y) cs i))
           [0..<nat \<lceil>real (length y) / real cs\<rceil>]) = y"
  using num_chunks_upper[OF assms, of "length y"] by (simp add: concat_chunks_take)

lemma length_samples_in:
  "length (samples_in y (chunk_range (length y) cs i))
     = min ((i + 1) * cs) (length y) - i * cs"
  by (simp add: samples_in_def chunk_range_def)

subsection \<open>The chunker\<close>

lemma split_audio_ok:
  assumes "librosa_load env (fs ap) (sample_rate cfg) = Inr y"
    and "C * sample_rate cfg \<noteq> 0"
    and "\<forall>i < nat \<lceil>real (length y) / real_of_int (C * sample_rate cfg)\<rceil>.
           sf_write env (chunk_path ap i) = None"
  shows "split_audio env cfg fs ap C
       = (Inr (map (chunk_path ap) [0..<nat \<lceil>real (length y) / real_of_int (C * sample_rate cfg)\<rceil>]),
          fold (write_chunk ap y (sample_rate cfg) (C * sample_rate cfg))
            [0..<nat \<lceil>real (length y) / real_of_int (C * sample_rate cfg)\<rceil>] fs)"
proof -
  let ?n = "nat \<lceil>real (length y) / real_of_int (C * sample_rate cfg)\<rceil>"
  have "\<forall>i\<in>set [0..<?n]. sf_write env (chunk_path ap i) = None"
    using assms(3) by simp
  from split_loop_ok[OF this] show ?thesis
    using assms(1,2) by (simp add: split_audio_def Let_def)
qed

lemma split_audio_Inr:
  assumes "split_audio env cfg fs ap C = (Inr chunks, fs')"
  shows "\<exists>y. librosa_load env (fs ap) (sample_rate cfg) = Inr y
           \<and> C * sample_rate cfg \<noteq> 0
           \<and> (\<forall>i < nat \<lceil>real (length y) / real_of_int (C * sample_rate cfg)\<rceil>.
                 sf_write env (chunk_path ap i) = None)"
proof -
  from assms obtain y where y: "librosa_load env (fs ap) (sample_rate cfg) = Inr y"
    and nz: "C * sample_rate cfg \<noteq> 0"
    by (auto simp: split_audio_def Let_def split: sum.splits if_splits)
  let ?n = "nat \<lceil>real (length y) / real_of_int (C * sample_rate cfg)\<rceil>"
  from assms y nz obtain cs' f' where
    "split_loop env ap y (sample_rate cfg) (C * sample_rate cfg) [0..<?n] [] fs = (Inr cs', f')"
    by (auto simp: split_audio_def Let_def split: sum.splits prod.splits)
  from split_loop_Inr[OF this] have "\<forall>i < ?n. sf_write env (chunk_path ap i) = None"
    by simp
  with y nz show ?thesis by blast
qed

lemma split_audio_Inr_chunks:
  assumes "split_audio env cfg fs ap C = (Inr chunks, fs')"
  shows "chunks = map (chunk_path ap) [0..<length chunks]"
proof -
  from split_audio_Inr[OF assms] obtain y where
    "librosa_load env (fs ap) (sample_rate cfg) = Inr y" "C * sample_rate cfg \<noteq> 0"
    "\<forall>i < nat \<lceil>real (length y) / real_of_int (C * sample_rate cfg)\<rceil>.
        sf_write env (chunk_path ap i) = None"
    by blast
  then have "split_audio env cfg fs ap C
       = (Inr (map (chunk_path ap) [0..<nat \<lceil>real (length y) / real_of_int (C * sample_rate cfg)\<rceil>]),
          fold (write_chunk ap y (sample_rate cfg) (C * sample_rate cfg))
            [0..<nat \<lceil>real (length y) / real_of_int (C * sample_rate cfg)\<rceil>] fs)"
    by (rule split_audio_ok)
  with assms show ?thesis by auto
qed

text \<open>
  C2. For a canonical audio \<open>y\<close> at a positive sample rate and a positive chunk duration
  \<open>C\<close>, when no write of a chunk fails, the chunker returns
  \<open>ceil(total_samples / (C * sr))\<close> paths, in index order; the file of chunk \<open>i\<close> holds
  the samples of the range from \<open>i * C * sr\<close> to \<open>min ((i + 1) * C * sr) total_samples\<close>;
  the ranges are not empty, each one starts where the one before ends, the first starts
  at 0 and the last ends at \<open>total_samples\<close>, so that the chunks in order are the audio;
  and every chunk but the last has \<open>C * sr\<close> samples. The quotient is exact here; the
  floating point one of the source agrees with it for every audio of fewer than \<open>2^53\<close>
  samples.
\<close>

theorem split_audio_partition:
  assumes "librosa_load env (fs ap) (sample_rate cfg) = Inr y"
    and "0 < C" and "0 < sample_rate cfg"
    and "\<forall>i < nat \<lceil>real (length y) / real_of_int (C * sample_rate cfg)\<rceil>.
           sf_write env (chunk_path ap i) = None"
  shows "\<exists>chunks fs'.
           split_audio env cfg fs ap C = (Inr chunks, fs')
         \<and> int (length chunks) = \<lceil>real (length y) / real_of_int (C * sample_rate cfg)\<rceil>
         \<and> chunks = map (chunk_path ap) [0..<length chunks]
         \<and> (\<forall>i < length chunks.
               fs' (chunks ! i)
                 = Some (Wav (sample_rate cfg)
                     (samples_in y (chunk_range (length y) (nat (C * sample_rate cfg)) i)))
               \<and> chunk_range (length y) (nat (C * sample_rate cfg)) i
                   = (i * nat (C * sample_rate cfg),
                      min ((i + 1) * nat (C * sample_rate cfg)) (length y))
               \<and> i * nat (C * sample_rate cfg) < min ((i + 1) * nat (C * sample_rate cfg)) (length y))
         \<and> (\<forall>i. Suc i < length chunks \<longrightarrow>
               snd (chunk_range (length y) (nat (C * sample_rate cfg)) i)
                 = fst (chunk_range (length y) (nat (C * sample_rate cfg)) (Suc i))
               \<and> length (samples_in y (chunk_range (length y) (nat (C * sample_rate cfg)) i))
                   = nat (C * sample_rate cfg))
         \<and> (chunks \<noteq> [] \<longrightarrow>
               fst (chunk_range (length y) (nat (C * sample_rate cfg)) 0) = 0
               \<and> snd (chunk_range (length y) (nat (C * sample_rate cfg)) (length chunks - 1))
                   = length y)
         \<and> concat (map (\<lambda>i. samples_in y (chunk_range (length y) (nat (C * sample_rate cfg)) i))
                     [0..<length chunks]) = y"
proof -
  let ?cs = "C * sample_rate cfg"
  let ?n = "nat \<lceil>real (length y) / real_of_int ?cs\<rceil>"
  let ?chunks = "map (chunk_path ap) [0..<?n]"
  let ?fs' = "fold (write_chunk ap y (sample_rate cfg) ?cs) [0..<?n] fs"
  have cs: "0 < ?cs" using assms(2,3) by simp
  then have ncs: "0 < nat ?cs" by simp
  have nz: "?cs \<noteq> 0" using assms(2,3) by simp
  have q: "real (length y) / real_of_int ?cs = real (length y) / real (nat ?cs)"
    using cs by simp
  have n: "?n = nat \<lceil>real (length y) / real (nat ?cs)\<rceil>"
    by (simp only: q)
  have run: "split_audio env cfg fs ap C = (Inr ?chunks, ?fs')"
    using assms(1) nz assms(4) by (rule split_audio_ok)
  have len: "length ?chunks = ?n" by simp
  have count: "int (length ?chunks) = \<lceil>real (length y) / real_of_int ?cs\<rceil>"
  proof -
    have "0 \<le> \<lceil>real (length y) / real_of_int ?cs\<rceil>"
    proof -
      have "0 \<le> real (length y) / real_of_int ?cs"
        using assms(2,3) by (intro divide_nonneg_pos) simp_all
      then show ?thesis by (metis ceiling_mono ceiling_zero)
    qed
    then show ?thesis by simp
  qed
  have upper: "length y \<le> ?n * nat ?cs"
    unfolding n by (rule num_chunks_upper[OF ncs])
  have lower: "i * nat ?cs < length y" if "i < ?n" for i
    using that unfolding n by (rule num_chunks_lower[OF ncs])
  have files: "?fs' (?chunks ! i)
                 = Some (Wav (sample_rate cfg) (samples_in y (chunk_range (length y) (nat ?cs) i)))"
    if "i < ?n" for i
  proof -
    have "?chunks ! i = chunk_path ap i" using that by simp
    moreover have "i \<in> set [0..<?n]" using that by simp
    ultimately show ?thesis
      by (simp only: fold_write_chunk_at py_slice_chunk_range[OF cs])
  qed
  have nonempty: "i * nat ?cs < min ((i + 1) * nat ?cs) (length y)" if "i < ?n" for i
    using lower[OF that] ncs by simp
  have full: "min ((i + 1) * nat ?cs) (length y) = (i + 1) * nat ?cs" if "Suc i < ?n" for i
    using lower[OF that] by simp
  have last: "min ((?n - 1 + 1) * nat ?cs) (length y) = length y" if "?n \<noteq> 0"
    using upper that by simp
  have parts: "concat (map (\<lambda>i. samples_in y (chunk_range (length y) (nat ?cs) i)) [0..<?n]) = y"
    unfolding n by (rule concat_chunks[OF ncs])
  show ?thesis
  proof (intro exI[of _ ?chunks] exI[of _ ?fs'] conjI allI impI)
    show "split_audio env cfg fs ap C = (Inr ?chunks, ?fs')" by (rule run)
    show "int (length ?chunks) = \<lceil>real (length y) / real_of_int ?cs\<rceil>" by (rule count)
    show "?chunks = map (chunk_path ap) [0..<length ?chunks]" by simp
    show "concat (map (\<lambda>i. samples_in y (chunk_range (length y) (nat ?cs) i)) [0..<length ?chunks]) = y"
      using parts by simp
  next
    fix i assume "i < length ?chunks"
    then have i: "i < ?n" by simp
    show "?fs' (?chunks ! i)
           = Some (Wav (sample_rate cfg) (samples_in y (chunk_range (length y) (nat ?cs) i)))"
      by (rule files[OF i])
    show "chunk_range (length y) (nat ?cs) i
            = (i * nat ?cs, min ((i + 1) * nat ?cs) (length y))"
      by (simp add: chunk_range_def)
    show "i * nat ?cs < min ((i + 1) * nat ?cs) (length y)"
      by (rule nonempty[OF i])
  next
    fix i assume "Suc i < length ?chunks"
    then have i: "Suc i < ?n" by simp
    show "snd (chunk_range (length y) (nat ?cs) i) = fst (chunk_range (length y) (nat ?cs) (Suc i))"
      using full[OF i] by (simp add: chunk_range_def)
    show "length (samples_in y (chunk_range (length y) (nat ?cs) i)) = nat ?cs"
      using full[OF i] by (simp add: length_samples_in)
  next
    assume "?chunks \<noteq> []"
    then have nz: "?n \<noteq> 0" by simp
    show "fst (chunk_range (length y) (nat ?cs) 0) = 0"
      by (simp add: chunk_range_def)
    show "snd (chunk_range (length y) (nat ?cs) (length ?chunks - 1)) = length y"
      using last[OF nz] by (simp add: chunk_range_def)
  qed
qed

lemma chunks_of_125_seconds:
  assumes "0 < sr"
  shows "nat \<lceil>real (125 * sr) / real (60 * sr)\<rceil> = 3"
    and "map (chunk_range (125 * sr) (60 * sr)) [0, 1, 2]
           = [(0, 60 * sr), (60 * sr, 120 * sr), (120 * sr, 125 * sr)]"
proof -
  have e: "real (125 * sr) / real (60 * sr) = 125 / 60"
    using assms by simp
  show "nat \<lceil>real (125 * sr) / real (60 * sr)\<rceil> = 3"
    unfolding e by simp
  show "map (chunk_range (125 * sr) (60 * sr)) [0, 1, 2]
           = [(0, 60 * sr), (60 * sr, 120 * sr), (120 * sr, 125 * sr)]"
    by (simp add: chunk_range_def)
qed

theorem split_audio_partition_witness:
  "\<exists>chunks fs'.
      split_audio demo_env (demo_cfg 60) fs125 wav125 60 = (Inr chunks, fs')
    \<and> length chunks = 3
    \<and> chunks = map (chunk_path wav125) [0, 1, 2]
    \<and> fs' (chunks ! 0) = Some (Wav 1 (replicate 60 0))
    \<and> fs' (chunks ! 1) = Some (Wav 1 (replicate 60 0))
    \<and> fs' (chunks ! 2) = Some (Wav 1 (replicate 5 0))"
proof -
  have h1: "librosa_load demo_env (fs125 wav125) (sample_rate (demo_cfg 60)) = Inr (replicate 125 0)"
    by (simp add: demo_env_def fs125_def)
  have h2: "(0::int) < 60" by simp
  have h3: "0 < sample_rate (demo_cfg 60)" by (simp add: demo_cfg_def)
  have h4: "\<forall>i < nat \<lceil>real (length (replicate 125 (0::real))) / real_of_int (60 * sample_rate (demo_cfg 60))\<rceil>.
      sf_write demo_env (chunk_path wav125 i) = None"
    by (simp add: demo_env_def)
  from split_audio_partition[where env = demo_env and fs = fs125 and ap = wav125
      and cfg = "demo_cfg 60" and y = "replicate 125 0" and C = 60, OF h1 h2 h3 h4]
  obtain chunks fs' where
    run: "split_audio demo_env (demo_cfg 60) fs125 wav125 60 = (Inr chunks, fs')"
    and n: "int (length chunks) = \<lceil>real (length (replicate 125 (0::real))) / real_of_int (60 * sample_rate (demo_cfg 60))\<rceil>"
    and paths: "chunks = map (chunk_path wav125) [0..<length chunks]"
    and files: "\<forall>i < length chunks.
               fs' (chunks ! i)
                 = Some (Wav (sample_rate (demo_cfg 60))
                     (samples_in (replicate 125 0) (chunk_range (length (replicate 125 (0::real))) (nat (60 * sample_rate (demo_cfg 60))) i)))"
    by blast
  from n have len: "length chunks = 3" by (simp add: demo_cfg_def)
  from paths have p: "chunks = map (chunk_path wav125) [0, 1, 2]"
    unfolding len by (simp add: upt3)
  have f0: "fs' (chunks ! 0) = Some (Wav 1 (replicate 60 0))"
    using files[rule_format, of 0] by (simp add: len demo_cfg_def samples_in_def chunk_range_def)
  have f1: "fs' (chunks ! 1) = Some (Wav 1 (replicate 60 0))"
    using files[rule_format, of 1] by (simp add: len demo_cfg_def samples_in_def chunk_range_def)
  have f2: "fs' (chunks ! 2) = Some (Wav 1 (replicate 5 0))"
    using files[rule_format, of 2] by (simp add: len demo_cfg_def samples_in_def chunk_range_def)
  from run len p f0 f1 f2 show ?thesis by blast
qed

section \<open>When the audio is chunked\<close>

text \<open>
  C9. In a successful run the measured duration decides: when it is at most the chunk
  size, no chunk is made, the recognizer is called once, on the converted file, its
  answer is the text from which the result is made, and \<open>chunks_processed\<close> is 1; when it
  exceeds the chunk size, the chunker runs, the recognizer is called on its chunks, one
  call per chunk in index order, each call answers with a text, the result is made from
  these texts in that order, and \<open>chunks_processed\<close> is the number of the chunks.
\<close>

theorem chunking_threshold:
  assumes "transcribe env cfg fs p lang = (Inr res, fs', calls)"
  shows "\<exists>d conv fsc.
           get_audio_duration env fs p = Inr d
         \<and> convert_to_wav env cfg fs p = (Inr conv, fsc)
         \<and> (d \<le> real_of_int (chunk_size_seconds cfg) \<longrightarrow>
               calls = [conv] \<and> chunks_processed res = 1
               \<and> fs' = cleanup_files env fsc [conv]
               \<and> (\<exists>full_text.
                     asr_transcribe env fsc conv = Inr full_text
                   \<and> res = make_result env full_text lang d 1
                   \<and> result_text res = strip env full_text))
         \<and> (d > real_of_int (chunk_size_seconds cfg) \<longrightarrow>
               (\<exists>chunks fs1 ts.
                   split_audio env cfg fsc conv (chunk_size_seconds cfg) = (Inr chunks, fs1)
                 \<and> chunks = map (chunk_path conv) [0..<length chunks]
                 \<and> calls = chunks
                 \<and> map (asr_transcribe env fs1) chunks = map Inr ts
                 \<and> res = make_result env (join [32] (filter (\<lambda>t. t \<noteq> []) ts)) lang d
                           (length chunks)
                 \<and> result_text res = strip env (join [32] (filter (\<lambda>t. t \<noteq> []) ts))
                 \<and> chunks_processed res = length chunks
                 \<and> fs' = cleanup_files env fs1 (conv # chunks)))"
proof -
  from assms obtain temp_files fs1 where
    tr: "transcribe_try env cfg fs p lang = (Inr res, temp_files, fs1, calls)"
    and fs': "fs' = cleanup_files env fs1 temp_files"
    unfolding transcribe_Inr by blast
  from transcribe_try_Inr[OF tr] obtain d conv fsc where
    d: "get_audio_duration env fs p = Inr d"
    and conv: "convert_to_wav env cfg fs p = (Inr conv, fsc)"
    and br: "if d > real_of_int (chunk_size_seconds cfg)
              then \<exists>chunks texts.
                     split_audio env cfg fsc conv (chunk_size_seconds cfg) = (Inr chunks, fs1)
                     \<and> transcribe_chunks env fs1 chunks [] [] = (Inr texts, calls)
                     \<and> res = make_result env (join [32] texts) lang d (length chunks)
                     \<and> temp_files = conv # chunks
              else \<exists>full_text. asr_transcribe env fsc conv = Inr full_text \<and> fs1 = fsc
                     \<and> res = make_result env full_text lang d 1
                     \<and> temp_files = [conv] \<and> calls = [conv]"
    by blast
  have direct: "calls = [conv] \<and> chunks_processed res = 1
               \<and> fs' = cleanup_files env fsc [conv]
               \<and> (\<exists>full_text.
                     asr_transcribe env fsc conv = Inr full_text
                   \<and> res = make_result env full_text lang d 1
                   \<and> result_text res = strip env full_text)"
    if "d \<le> real_of_int (chunk_size_seconds cfg)"
  proof -
    from br that obtain full_text where
      a: "asr_transcribe env fsc conv = Inr full_text" "fs1 = fsc"
        "res = make_result env full_text lang d 1" "temp_files = [conv]" "calls = [conv]"
      by auto
    have "chunks_processed res = 1" "result_text res = strip env full_text"
      by (simp_all add: a(3) make_result_def)
    with a fs' show ?thesis by blast
  qed
  have chunked: "\<exists>chunks fs1 ts.
                   split_audio env cfg fsc conv (chunk_size_seconds cfg) = (Inr chunks, fs1)
                 \<and> chunks = map (chunk_path conv) [0..<length chunks]
                 \<and> calls = chunks
                 \<and> map (asr_transcribe env fs1) chunks = map Inr ts
                 \<and> res = make_result env (join [32] (filter (\<lambda>t. t \<noteq> []) ts)) lang d
                           (length chunks)
                 \<and> result_text res = strip env (join [32] (filter (\<lambda>t. t \<noteq> []) ts))
                 \<and> chunks_processed res = length chunks
                 \<and> fs' = cleanup_files env fs1 (conv # chunks)"
    if "d > real_of_int (chunk_size_seconds cfg)"
  proof -
    from br that obtain chunks texts where
      sp: "split_audio env cfg fsc conv (chunk_size_seconds cfg) = (Inr chunks, fs1)"
      and loop: "transcribe_chunks env fs1 chunks [] [] = (Inr texts, calls)"
      and res: "res = make_result env (join [32] texts) lang d (length chunks)"
      and tf: "temp_files = conv # chunks"
      by auto
    from transcribe_chunks_Inr[OF loop] obtain ts where
      ts: "map (asr_transcribe env fs1) chunks = map Inr ts"
      and texts: "texts = filter (\<lambda>t. t \<noteq> []) ts"
      and c: "calls = chunks"
      by auto
    have res': "res = make_result env (join [32] (filter (\<lambda>t. t \<noteq> []) ts)) lang d
                  (length chunks)"
      using res texts by simp
    have n: "chunks_processed res = length chunks"
      and rt: "result_text res = strip env (join [32] (filter (\<lambda>t. t \<noteq> []) ts))"
      by (simp_all add: res' make_result_def)
    from sp split_audio_Inr_chunks[OF sp] c ts res' rt n fs' tf show ?thesis by blast
  qed
  show ?thesis
    using d conv direct chunked
    by (intro exI[of _ d] exI[of _ conv] exI[of _ fsc]) blast
qed

lemma demo_run_boundary:
  "fst (transcribe demo_env (demo_cfg 15) (demo_fs privet) demo_path None)
   = Inr \<lparr>result_text = privet, language = cps ''ru'', duration = 15, chunks_processed = 1,
          processing_time_ms = 7\<rparr>"
  by (simp add: run_defs demo_defs path_defs privet_def)

lemma demo_cfg_chunk: "chunk_size_seconds (demo_cfg c) = c"
  by (simp add: demo_cfg_def)

lemma demo_duration: "get_audio_duration demo_env (demo_fs b) demo_path = Inr (real (length b))"
  by (simp add: get_audio_duration_def demo_defs)

lemma demo_convert:
  "convert_to_wav demo_env (demo_cfg c) (demo_fs b) demo_path
     = (Inr wav125, (demo_fs b)(wav125 \<mapsto> Wav 1 (map real b)))"
  by (simp add: convert_to_wav_def pydub_strategy_def write_file_def demo_defs path_defs wav125_def)

theorem chunking_threshold_witness:
  "(\<exists>res fs' calls.
      transcribe demo_env (demo_cfg 15) (demo_fs privet) demo_path None = (Inr res, fs', calls)
    \<and> get_audio_duration demo_env (demo_fs privet) demo_path = Inr 15
    \<and> calls = [wav125] \<and> chunks_processed res = 1
    \<and> asr_transcribe demo_env ((demo_fs privet)(wav125 \<mapsto> Wav 1 (map real privet))) wav125
        = Inr (result_text res))
   \<and> (\<exists>res fs' calls ts.
      transcribe demo_env (demo_cfg 10) (demo_fs tape) demo_path None = (Inr res, fs', calls)
    \<and> get_audio_duration demo_env (demo_fs tape) demo_path = Inr 25
    \<and> calls = map (chunk_path wav125) [0, 1, 2] \<and> chunks_processed res = 3
    \<and> length ts = 3
    \<and> result_text res = strip demo_env (join [32] (filter (\<lambda>t. t \<noteq> []) ts)))"
proof -
  let ?r1 = "\<lparr>result_text = privet, language = cps ''ru'', duration = 15, chunks_processed = 1,
          processing_time_ms = 7\<rparr>"
  let ?r2 = "\<lparr>result_text = cps ''hello world'', language = cps ''en'', duration = 25,
          chunks_processed = 3, processing_time_ms = 7\<rparr>"
  note r1 = run_tuple[OF demo_run_boundary]
  note r2 = run_tuple[OF demo_run_tape]
  have d1: "get_audio_duration demo_env (demo_fs privet) demo_path = Inr 15"
    by (simp add: demo_duration privet_def)
  have d2: "get_audio_duration demo_env (demo_fs tape) demo_path = Inr 25"
    by (simp add: demo_duration tape_def)
  from chunking_threshold[OF r1] obtain full_text where
    c1: "snd (snd (transcribe demo_env (demo_cfg 15) (demo_fs privet) demo_path None)) = [wav125]"
    and a1: "asr_transcribe demo_env ((demo_fs privet)(wav125 \<mapsto> Wav 1 (map real privet))) wav125
        = Inr full_text"
    and t1: "result_text ?r1 = strip demo_env full_text"
    by (auto simp: d1 demo_convert demo_cfg_chunk)
  have s1: "strip demo_env full_text = full_text"
    using a1 by (auto simp: asr_transcribe_def strip_def demo_env_def wav125_def demo_fs_def
        demo_path_def cps_def privet_def)
  from a1 t1 s1
  have a1': "asr_transcribe demo_env ((demo_fs privet)(wav125 \<mapsto> Wav 1 (map real privet))) wav125
        = Inr (result_text ?r1)"
    by simp
  from chunking_threshold[OF r2] obtain chunks fs1 ts where
    "snd (snd (transcribe demo_env (demo_cfg 10) (demo_fs tape) demo_path None)) = chunks"
    "chunks = map (chunk_path wav125) [0..<length chunks]" "chunks_processed ?r2 = length chunks"
    and m2: "map (asr_transcribe demo_env fs1) chunks = map Inr ts"
    and t2: "result_text ?r2 = strip demo_env (join [32] (filter (\<lambda>t. t \<noteq> []) ts))"
    by (auto simp: d2 demo_convert demo_cfg_chunk)
  then have c2: "snd (snd (transcribe demo_env (demo_cfg 10) (demo_fs tape) demo_path None))
      = map (chunk_path wav125) [0, 1, 2]"
    and l2: "length chunks = 3"
    by (simp_all add: upt3)
  from m2 l2 have n2: "length ts = 3"
    by (metis length_map)
  have w1: "\<exists>res fs' calls.
      transcribe demo_env (demo_cfg 15) (demo_fs privet) demo_path None = (Inr res, fs', calls)
    \<and> get_audio_duration demo_env (demo_fs privet) demo_path = Inr 15
    \<and> calls = [wav125] \<and> chunks_processed res = 1
    \<and> asr_transcribe demo_env ((demo_fs privet)(wav125 \<mapsto> Wav 1 (map real privet))) wav125
        = Inr (result_text res)"
    by (rule exI[of _ ?r1], intro exI conjI, rule r1, rule d1, rule c1, simp, rule a1')
  have w2: "\<exists>res fs' calls ts.
      transcribe demo_env (demo_cfg 10) (demo_fs tape) demo_path None = (Inr res, fs', calls)
    \<and> get_audio_duration demo_env (demo_fs tape) demo_path = Inr 25
    \<and> calls = map (chunk_path wav125) [0, 1, 2] \<and> chunks_processed res = 3
    \<and> length ts = 3
    \<and> result_text res = strip demo_env (join [32] (filter (\<lambda>t. t \<noteq> []) ts))"
    by (rule exI[of _ ?r2], rule exI, rule exI, rule exI[of _ ts], intro conjI, rule r2, rule d2,
        rule c2, simp, rule n2, rule t2)
  from w1 w2 show ?thesis by blast
qed

section \<open>Failed runs\<close>

lemma convert_to_wav_Inl:
  "convert_to_wav env cfg fs p = (Inl e, fs1) \<Longrightarrow>
   (\<exists>m. e = AudioProcessingError m) \<or> (\<exists>m. e = OtherException m)"
  by (auto simp: convert_to_wav_def with_suffix_def split: sum.splits prod.splits if_splits)

lemma split_audio_Inl_class:
  "split_audio env cfg fs ap C = (Inl e, fs1) \<Longrightarrow> \<exists>m. e = AudioProcessingError m"
  by (auto simp: split_audio_def Let_def split: sum.splits prod.splits if_splits)

lemma asr_transcribe_Inl: "asr_transcribe env fs p = Inl e \<Longrightarrow> \<exists>m. e = OtherException m"
  by (auto simp: asr_transcribe_def split: sum.splits if_splits)

lemma transcribe_chunks_Inl_class:
  "transcribe_chunks env fs chunks texts calls = (Inl e, calls') \<Longrightarrow> \<exists>m. e = OtherException m"
  using transcribe_chunks_Inl asr_transcribe_Inl by blast

text \<open>Past the duration gate the block raises no \<open>TranscriptionError\<close> of its own.\<close>

lemma transcribe_try_past_gate:
  assumes "get_audio_duration env fs p = Inr d"
    and "\<not> d > real_of_int (max_audio_duration_seconds cfg)" and "\<not> d < 1 / 10"
    and "transcribe_try env cfg fs p lang = (Inl e, temp_files, fs1, calls)"
  shows "(\<exists>m. e = AudioProcessingError m) \<or> (\<exists>m. e = OtherException m)"
proof -
  obtain r fsc where conv: "convert_to_wav env cfg fs p = (r, fsc)"
    by (cases "convert_to_wav env cfg fs p")
  show ?thesis
  proof (cases r)
    case (Inl e')
    with assms conv have "e = e'" by (simp add: transcribe_try_def)
    with convert_to_wav_Inl conv Inl show ?thesis by blast
  next
    case (Inr conv_path)
    show ?thesis
    proof (cases "d > real_of_int (chunk_size_seconds cfg)")
      case True
      obtain r2 fs2 where sp: "split_audio env cfg fsc conv_path (chunk_size_seconds cfg) = (r2, fs2)"
        by (cases "split_audio env cfg fsc conv_path (chunk_size_seconds cfg)")
      show ?thesis
      proof (cases r2)
        case (Inl e')
        with assms conv Inr True sp have "e = e'" by (simp add: transcribe_try_def)
        with split_audio_Inl_class sp Inl show ?thesis by blast
      next
        case r2: (Inr chunks)
        obtain r3 calls3 where loop: "transcribe_chunks env fs2 chunks [] [] = (r3, calls3)"
          by (cases "transcribe_chunks env fs2 chunks [] []")
        with assms conv Inr True sp r2 have "r3 = Inl e"
          by (cases r3) (simp_all add: transcribe_try_def)
        with loop transcribe_chunks_Inl_class show ?thesis by blast
      qed
    next
      case False
      with assms conv Inr have "asr_transcribe env fsc conv_path = Inl e"
        by (cases "asr_transcribe env fsc conv_path") (simp_all add: transcribe_try_def)
      with asr_transcribe_Inl show ?thesis by blast
    qed
  qed
qed

lemma transcribe_except_codes:
  "(\<exists>m. e = AudioProcessingError m) \<or> (\<exists>m. e = OtherException m) \<Longrightarrow>
   \<exists>m c. transcribe_except e = TranscriptionError m c
     \<and> (c = ''AUDIO_PROCESSING_ERROR'' \<or> c = ''TRANSCRIPTION_FAILED'')"
  by (auto simp: transcribe_except_def)

lemma transcribe_Inl:
  "transcribe env cfg fs p lang = (Inl e, fs', calls) \<longleftrightarrow>
   (\<exists>e0 temp_files fs1. transcribe_try env cfg fs p lang = (Inl e0, temp_files, fs1, calls)
       \<and> e = transcribe_except e0 \<and> fs' = cleanup_files env fs1 temp_files)"
  unfolding transcribe_def by (auto split: prod.splits sum.splits)

section \<open>The duration gate\<close>

text \<open>
  C3, as the code has it. The maximum is checked first: a duration above the configured
  maximum fails with \<open>AUDIO_TOO_LONG\<close>; a duration below 0.1 seconds that is not above the
  maximum fails with \<open>AUDIO_TOO_SHORT\<close>; both leave the file system as it was and call
  nothing. Any other duration lets the run proceed: it fails with neither code, and the
  result of a successful run has the measured duration. With a maximum of at least one
  second (the default is 7200) the two failures exclude each other and the gate is the
  one of the specification.
\<close>

theorem duration_gate:
  assumes "get_audio_duration env fs p = Inr d"
  shows "(d > real_of_int (max_audio_duration_seconds cfg) \<longrightarrow>
            transcribe env cfg fs p lang
              = (Inl (TranscriptionError
                        (cps ''Audio too long. Maximum duration is ''
                           @ str_int (max_audio_duration_seconds cfg div 60) @ cps '' minutes.'')
                        ''AUDIO_TOO_LONG''), fs, []))
       \<and> (d \<le> real_of_int (max_audio_duration_seconds cfg) \<and> d < 1 / 10 \<longrightarrow>
            transcribe env cfg fs p lang
              = (Inl (TranscriptionError (cps ''Audio file appears to be empty or too short.'')
                        ''AUDIO_TOO_SHORT''), fs, []))
       \<and> (d \<le> real_of_int (max_audio_duration_seconds cfg) \<and> 1 / 10 \<le> d \<longrightarrow>
            (\<forall>res fs' calls. transcribe env cfg fs p lang = (Inr res, fs', calls)
                \<longrightarrow> duration res = d)
          \<and> (\<forall>m c fs' calls. transcribe env cfg fs p lang = (Inl (TranscriptionError m c), fs', calls)
                \<longrightarrow> c \<noteq> ''AUDIO_TOO_SHORT'' \<and> c \<noteq> ''AUDIO_TOO_LONG''))
       \<and> (1 \<le> max_audio_duration_seconds cfg \<and> d < 1 / 10 \<longrightarrow>
            transcribe env cfg fs p lang
              = (Inl (TranscriptionError (cps ''Audio file appears to be empty or too short.'')
                        ''AUDIO_TOO_SHORT''), fs, []))"
proof -
  have long: "transcribe env cfg fs p lang
              = (Inl (TranscriptionError
                        (cps ''Audio too long. Maximum duration is ''
                           @ str_int (max_audio_duration_seconds cfg div 60) @ cps '' minutes.'')
                        ''AUDIO_TOO_LONG''), fs, [])"
    if "d > real_of_int (max_audio_duration_seconds cfg)"
    using assms that by (simp add: transcribe_def transcribe_try_def transcribe_except_def)
  have short: "transcribe env cfg fs p lang
              = (Inl (TranscriptionError (cps ''Audio file appears to be empty or too short.'')
                        ''AUDIO_TOO_SHORT''), fs, [])"
    if "d \<le> real_of_int (max_audio_duration_seconds cfg)" "d < 1 / 10"
    using assms that by (simp add: transcribe_def transcribe_try_def transcribe_except_def)
  have dur: "duration res = d"
    if "transcribe env cfg fs p lang = (Inr res, fs', calls)" for res fs' calls
  proof -
    from that obtain temp_files fs1 where
      tr: "transcribe_try env cfg fs p lang = (Inr res, temp_files, fs1, calls)"
      unfolding transcribe_Inr by blast
    from transcribe_try_Inr[OF tr] assms show ?thesis
      by (auto simp: make_result_def split: if_splits)
  qed
  have codes: "c \<noteq> ''AUDIO_TOO_SHORT'' \<and> c \<noteq> ''AUDIO_TOO_LONG''"
    if "d \<le> real_of_int (max_audio_duration_seconds cfg)" "1 / 10 \<le> d"
      "transcribe env cfg fs p lang = (Inl (TranscriptionError m c), fs', calls)"
    for m c fs' calls
  proof -
    from that(3) obtain e0 temp_files fs1 where
      tr: "transcribe_try env cfg fs p lang = (Inl e0, temp_files, fs1, calls)"
      and e: "TranscriptionError m c = transcribe_except e0"
      unfolding transcribe_Inl by blast
    have "(\<exists>m. e0 = AudioProcessingError m) \<or> (\<exists>m. e0 = OtherException m)"
      using that(1,2) by (intro transcribe_try_past_gate[OF assms _ _ tr]) auto
    from transcribe_except_codes[OF this] e show ?thesis by auto
  qed
  have sane: "d \<le> real_of_int (max_audio_duration_seconds cfg)"
    if "1 \<le> max_audio_duration_seconds cfg" "d < 1 / 10"
  proof -
    have "(1::real) \<le> real_of_int (max_audio_duration_seconds cfg)"
      using that(1) by simp
    with that(2) show ?thesis by simp
  qed
  show ?thesis
    using long short dur codes sane by blast
qed

lemma probe_duration: "get_audio_duration (probe_env d) fs p = Inr d"
  by (simp add: get_audio_duration_def probe_env_def)

lemma digits_120: "digits 120 = cps ''120''"
  by (simp add: digits.simps cps_def)

theorem duration_gate_witness:
  "transcribe (probe_env (1 / 20)) (demo_cfg 60) (demo_fs []) demo_path None
     = (Inl (TranscriptionError (cps ''Audio file appears to be empty or too short.'')
               ''AUDIO_TOO_SHORT''), demo_fs [], [])
   \<and> transcribe (probe_env 9000) (demo_cfg 60) (demo_fs []) demo_path None
     = (Inl (TranscriptionError (cps ''Audio too long. Maximum duration is 120 minutes.'')
               ''AUDIO_TOO_LONG''), demo_fs [], [])
   \<and> (\<exists>res fs' calls.
         transcribe demo_env (demo_cfg 60) (demo_fs privet) demo_path None = (Inr res, fs', calls)
       \<and> duration res = 15)"
proof -
  have m: "max_audio_duration_seconds (demo_cfg 60) = 7200"
    by (simp add: demo_cfg_def)
  have short: "transcribe (probe_env (1 / 20)) (demo_cfg 60) (demo_fs []) demo_path None
     = (Inl (TranscriptionError (cps ''Audio file appears to be empty or too short.'')
               ''AUDIO_TOO_SHORT''), demo_fs [], [])"
    using duration_gate[where env = "probe_env (1 / 20)" and d = "1 / 20" and cfg = "demo_cfg 60"
        and fs = "demo_fs []" and p = demo_path and lang = None, OF probe_duration]
    by (simp add: m)
  have long: "transcribe (probe_env 9000) (demo_cfg 60) (demo_fs []) demo_path None
     = (Inl (TranscriptionError (cps ''Audio too long. Maximum duration is 120 minutes.'')
               ''AUDIO_TOO_LONG''), demo_fs [], [])"
    using duration_gate[where env = "probe_env 9000" and d = 9000 and cfg = "demo_cfg 60"
        and fs = "demo_fs []" and p = demo_path and lang = None, OF probe_duration]
    by (simp add: m str_int_def digits_120) (simp add: cps_def)
  note r = run_tuple[OF demo_run_privet]
  have d: "get_audio_duration demo_env (demo_fs privet) demo_path = Inr 15"
    by (simp add: demo_duration privet_def)
  from duration_gate[where cfg = "demo_cfg 60" and lang = None, OF d] r
  have "duration \<lparr>result_text = privet, language = cps ''ru'', duration = 15,
          chunks_processed = 1, processing_time_ms = 7\<rparr> = 15"
    by simp
  with r have ok: "\<exists>res fs' calls.
         transcribe demo_env (demo_cfg 60) (demo_fs privet) demo_path None = (Inr res, fs', calls)
       \<and> duration res = 15"
    by blast
  from short long ok show ?thesis by blast
qed

theorem duration_gate_counterexample:
  "get_audio_duration (probe_env (1 / 20)) (demo_fs []) demo_path = Inr (1 / 20)
   \<and> (1 / 20 :: real) < 1 / 10
   \<and> fst (transcribe (probe_env (1 / 20)) ((demo_cfg 60)\<lparr>max_audio_duration_seconds := 0\<rparr>)
            (demo_fs []) demo_path None)
       = Inl (TranscriptionError (cps ''Audio too long. Maximum duration is 0 minutes.'')
                ''AUDIO_TOO_LONG'')
   \<and> \<not> (\<exists>m. fst (transcribe (probe_env (1 / 20))
                    ((demo_cfg 60)\<lparr>max_audio_duration_seconds := 0\<rparr>) (demo_fs []) demo_path None)
             = Inl (TranscriptionError m ''AUDIO_TOO_SHORT''))"
  by (simp add: probe_duration transcribe_def transcribe_try_def transcribe_except_def
      demo_cfg_def str_int_def digits.simps cps_def)

section \<open>Unexpected exceptions\<close>

lemma transcribe_try_Inl_class:
  assumes "transcribe_try env cfg fs p lang = (Inl e, temp_files, fs1, calls)"
  shows "(\<exists>m. e = AudioProcessingError m) \<or> (\<exists>m. e = OtherException m)
       \<or> (\<exists>m c. e = TranscriptionError m c \<and> (c = ''AUDIO_TOO_LONG'' \<or> c = ''AUDIO_TOO_SHORT''))"
proof (cases "get_audio_duration env fs p")
  case (Inl e')
  with assms have "e = e'" by (simp add: transcribe_try_def)
  with Inl show ?thesis
    by (auto simp: get_audio_duration_def split: sum.splits)
next
  case (Inr d)
  show ?thesis
  proof (cases "\<not> d > real_of_int (max_audio_duration_seconds cfg) \<and> \<not> d < 1 / 10")
    case True
    with transcribe_try_past_gate[OF Inr _ _ assms] show ?thesis by blast
  next
    case False
    with assms Inr show ?thesis
      by (auto simp: transcribe_try_def split: if_splits)
  qed
qed

lemma transcribe_raises:
  assumes "transcribe env cfg fs p lang = (Inl e, fs', calls)"
  shows "\<exists>m c. e = TranscriptionError m c
           \<and> (c = ''AUDIO_TOO_LONG'' \<or> c = ''AUDIO_TOO_SHORT''
                \<or> c = ''AUDIO_PROCESSING_ERROR'' \<or> c = ''TRANSCRIPTION_FAILED'')"
proof -
  from assms obtain e0 temp_files fs1 where
    tr: "transcribe_try env cfg fs p lang = (Inl e0, temp_files, fs1, calls)"
    and e: "e = transcribe_except e0"
    unfolding transcribe_Inl by blast
  from transcribe_try_Inl_class[OF tr] e show ?thesis
    by (auto simp: transcribe_except_def)
qed

text \<open>
  C8, as the code has it. An exception of the block of \<open>transcribe\<close> that is neither a
  \<open>TranscriptionError\<close> nor an \<open>AudioProcessingError\<close> is raised again as a
  \<open>TranscriptionError\<close> with the code \<open>TRANSCRIPTION_FAILED\<close> and the message
  \<open>Failed to transcribe audio: \<close> followed by the text of the exception, after the cleanup
  of the temporary files; the endpoint reports this code and message with status 500 and
  no \<open>details\<close>. Whatever \<open>transcribe\<close> raises is a \<open>TranscriptionError\<close>, so the
  endpoint's \<open>INTERNAL_ERROR\<close> is the report of no exception of the pipeline.
\<close>

theorem unexpected_exception_report:
  assumes "filename audio = Some fname" and "fname \<noteq> []"
    and "validate_format env cfg fname"
    and "\<not> (case size_bytes audio of None \<Rightarrow> False
             | Some sz \<Rightarrow> sz \<noteq> 0 \<and> int sz > max_file_size_mb cfg * 1024 * 1024)"
    and "save_upload env cfg fs (upload_file audio) fname = (Inr saved_path, fs0)"
    and "transcribe_try env cfg fs0 saved_path lang = (Inl (OtherException m), temp_files, fs1, calls)"
  shows "transcribe env cfg fs0 saved_path lang
           = (Inl (TranscriptionError (cps ''Failed to transcribe audio: '' @ m)
                     ''TRANSCRIPTION_FAILED''),
              cleanup_files env fs1 temp_files, calls)
       \<and> transcribe_audio env cfg fs audio lang
           = (HTTPException 500
                \<lparr>code = ''TRANSCRIPTION_FAILED'',
                 message = cps ''Failed to transcribe audio: '' @ m, details = None\<rparr>,
              cleanup_file env (cleanup_files env fs1 temp_files) saved_path, calls)
       \<and> (\<forall>e fs' calls' p. transcribe env cfg fs0 p lang = (Inl e, fs', calls') \<longrightarrow>
             (\<exists>m' c. e = TranscriptionError m' c \<and> c \<noteq> ''INTERNAL_ERROR''
                \<and> endpoint_except e
                    = HTTPException 500 \<lparr>code = c, message = m', details = None\<rparr>))"
proof -
  have t: "transcribe env cfg fs0 saved_path lang
           = (Inl (TranscriptionError (cps ''Failed to transcribe audio: '' @ m)
                     ''TRANSCRIPTION_FAILED''),
              cleanup_files env fs1 temp_files, calls)"
    using assms(6) by (simp add: transcribe_def transcribe_except_def)
  have a: "transcribe_audio env cfg fs audio lang
           = (HTTPException 500
                \<lparr>code = ''TRANSCRIPTION_FAILED'',
                 message = cps ''Failed to transcribe audio: '' @ m, details = None\<rparr>,
              cleanup_file env (cleanup_files env fs1 temp_files) saved_path, calls)"
    using assms(1-5) t by (simp add: transcribe_audio_def endpoint_except_def)
  have g: "\<exists>m' c. e = TranscriptionError m' c \<and> c \<noteq> ''INTERNAL_ERROR''
                \<and> endpoint_except e
                    = HTTPException 500 \<lparr>code = c, message = m', details = None\<rparr>"
    if "transcribe env cfg fs0 p lang = (Inl e, fs', calls')" for e fs' calls' p
  proof -
    from transcribe_raises[OF that] show ?thesis
      by (auto simp: endpoint_except_def)
  qed
  from t a g show ?thesis by blast
qed

lemmas endpoint_defs = transcribe_audio_def validate_format_def save_upload_def path_of_def
  lower_def ascii_lower_def lstrip_dot_def endpoint_except_def demo_upload_def
  cleanup_file_def unlink_def transcribe_except_def Let_def

lemma demo_save_upload:
  "save_upload crash_env (demo_cfg 60) Map.empty (Inr privet) (cps ''Privet.MP3'')
     = (Inr demo_path, demo_fs privet)"
  by (simp add: save_upload_def path_of_def lower_def ascii_lower_def crash_env_def
      demo_defs path_defs write_file_def Let_def)

lemma crash_try:
  "transcribe_try crash_env (demo_cfg 60) (demo_fs privet) demo_path None
     = (Inl (OtherException (cps ''Transcription failed: decoder crashed'')),
        [wav125], (demo_fs privet)(wav125 \<mapsto> Wav 1 (map real privet)), [wav125])"
  by (simp add: run_defs crash_env_def demo_defs path_defs privet_def wav125_def)

theorem unexpected_exception_report_witness:
  "fst (transcribe_audio crash_env (demo_cfg 60) Map.empty
          (demo_upload (cps ''Privet.MP3'') privet) None)
     = HTTPException 500
         \<lparr>code = ''TRANSCRIPTION_FAILED'',
          message = cps ''Failed to transcribe audio: Transcription failed: decoder crashed'',
          details = None\<rparr>
   \<and> fst (transcribe crash_env (demo_cfg 60) (demo_fs privet) demo_path None)
     = Inl (TranscriptionError
              (cps ''Failed to transcribe audio: Transcription failed: decoder crashed'')
              ''TRANSCRIPTION_FAILED'')"
proof -
  have h1: "filename (demo_upload (cps ''Privet.MP3'') privet) = Some (cps ''Privet.MP3'')"
    by (simp add: demo_upload_def)
  have h2: "cps ''Privet.MP3'' \<noteq> []" by (simp add: cps_def)
  have h3: "validate_format crash_env (demo_cfg 60) (cps ''Privet.MP3'')"
    by (simp add: validate_format_def path_of_def lower_def ascii_lower_def lstrip_dot_def
        crash_env_def demo_defs path_defs)
  have h4: "\<not> (case size_bytes (demo_upload (cps ''Privet.MP3'') privet) of None \<Rightarrow> False
             | Some sz \<Rightarrow> sz \<noteq> 0 \<and> int sz > max_file_size_mb (demo_cfg 60) * 1024 * 1024)"
    by (simp add: demo_upload_def demo_cfg_def privet_def)
  have h5: "save_upload crash_env (demo_cfg 60) Map.empty
              (upload_file (demo_upload (cps ''Privet.MP3'') privet)) (cps ''Privet.MP3'')
            = (Inr demo_path, demo_fs privet)"
    by (simp add: demo_upload_def demo_save_upload)
  from unexpected_exception_report[OF h1 h2 h3 h4 h5 crash_try]
  show ?thesis by (simp add: cps_def)
qed

theorem unexpected_exception_report_counterexample:
  "asr_transcribe unloaded_env
       ((demo_fs privet)(wav125 \<mapsto> Wav 1 (map real privet))) wav125
     = Inl (OtherException (cps ''Model not loaded''))
   \<and> fst (transcribe_audio unloaded_env (demo_cfg 60) Map.empty
          (demo_upload (cps ''privet.mp3'') privet) None)
     = HTTPException 500
         \<lparr>code = ''TRANSCRIPTION_FAILED'',
          message = cps ''Failed to transcribe audio: Model not loaded'',
          details = None\<rparr>
   \<and> \<not> (\<exists>st m d. fst (transcribe_audio unloaded_env (demo_cfg 60) Map.empty
          (demo_upload (cps ''privet.mp3'') privet) None)
     = HTTPException st \<lparr>code = ''INTERNAL_ERROR'', message = m, details = d\<rparr>)"
  by (simp add: endpoint_defs run_defs unloaded_env_def demo_defs path_defs privet_def wav125_def)

section \<open>The converter\<close>

lemma length_takeWhile_neq: "x \<in> set xs \<Longrightarrow> length (takeWhile (\<lambda>y. y \<noteq> x) xs) < length xs"
  by (induction xs) auto

lemma rfind_nth:
  assumes "0 \<le> rfind c s"
  shows "nat (rfind c s) < length s \<and> s ! nat (rfind c s) = c"
proof -
  have mem: "c \<in> set s"
    using assms by (auto simp: rfind_def split: if_splits)
  let ?k = "length (takeWhile (\<lambda>x. x \<noteq> c) (rev s))"
  have k: "?k < length (rev s)"
    using mem by (intro length_takeWhile_neq) simp
  then have "\<not> (rev s ! ?k \<noteq> c)"
    by (rule nth_length_takeWhile)
  then have "rev s ! ?k = c" by simp
  moreover have "rev s ! ?k = s ! (length s - Suc ?k)"
    using k by (simp add: rev_nth)
  moreover have "nat (rfind c s) = length s - Suc ?k"
    using mem k by (simp add: rfind_def)
  ultimately show ?thesis using k by simp
qed

lemma name_stem_suffix: "name p = stem p @ suffix p"
  by (simp add: stem_def suffix_def Let_def)

lemma suffix_starts_with_dot: "suffix p \<noteq> [] \<Longrightarrow> hd (suffix p) = 46"
proof -
  assume a: "suffix p \<noteq> []"
  then have i: "0 < rfind 46 (name p)" "rfind 46 (name p) < int (length (name p)) - 1"
    by (auto simp: suffix_def Let_def split: if_splits)
  then have "suffix p = drop (nat (rfind 46 (name p))) (name p)"
    by (simp add: suffix_def Let_def)
  moreover from rfind_nth[of 46 "name p"] i
  have "nat (rfind 46 (name p)) < length (name p)" "name p ! nat (rfind 46 (name p)) = 46"
    by auto
  ultimately show ?thesis by (simp add: hd_drop_conv_nth)
qed

lemma chunk_path_neq: "chunk_path ap i \<noteq> ap"
proof
  assume "chunk_path ap i = ap"
  then have "name ap = stem ap @ cps ''_chunk_'' @ fmt_04d i @ cps ''.wav''"
    by (cases ap) (simp add: chunk_path_def)
  then have eq: "suffix ap = cps ''_chunk_'' @ fmt_04d i @ cps ''.wav''"
    using name_stem_suffix[of ap] by simp
  then have "suffix ap \<noteq> []" by (simp add: cps_def)
  from suffix_starts_with_dot[OF this] eq show False
    by (simp add: cps_def)
qed

lemma pydub_strategy_frame:
  "pydub_strategy env cfg fs p out = (r, fs1) \<Longrightarrow> q \<noteq> out \<Longrightarrow> fs1 q = fs q"
  by (auto simp: pydub_strategy_def split: sum.splits dest: write_file_other)

lemma librosa_strategy_frame:
  "librosa_strategy env cfg fs p out = (r, fs1) \<Longrightarrow> q \<noteq> out \<Longrightarrow> fs1 q = fs q"
  by (auto simp: librosa_strategy_def split: sum.splits dest: write_file_other)

text \<open>
  C4, as the code has it. When the pydub strategy raises, the librosa strategy is run on
  the same input, on the file system the first attempt left. When it raises as well, the
  converter raises an \<open>AudioProcessingError\<close> whose message is \<open>Failed to convert audio: \<close>
  followed by the text of the second exception, and a run whose duration passed the gate
  fails with the code \<open>AUDIO_PROCESSING_ERROR\<close> and that message, with nothing registered
  and no recognizer call. No path but the output path of the conversion has changed; in
  particular no chunk file was written.
\<close>

theorem conversion_fallback:
  assumes "with_suffix env p (cps ''.converted.wav'') = Inr out"
    and "pydub_strategy env cfg fs p out = (Inl e1, fs1)"
  shows "convert_to_wav env cfg fs p
           = (case librosa_strategy env cfg fs1 p out of
                (Inr u, fs2) \<Rightarrow> (Inr out, fs2)
              | (Inl e2, fs2) \<Rightarrow>
                  (Inl (AudioProcessingError (cps ''Failed to convert audio: '' @ e2)), fs2))
       \<and> (\<forall>e2 fs2 d.
             librosa_strategy env cfg fs1 p out = (Inl e2, fs2)
             \<and> get_audio_duration env fs p = Inr d
             \<and> d \<le> real_of_int (max_audio_duration_seconds cfg) \<and> 1 / 10 \<le> d
             \<longrightarrow>
               transcribe env cfg fs p lang
                 = (Inl (TranscriptionError (cps ''Failed to convert audio: '' @ e2)
                           ''AUDIO_PROCESSING_ERROR''), fs2, [])
             \<and> (\<forall>q. q \<noteq> out \<longrightarrow> fs2 q = fs q)
             \<and> (\<forall>i. fs2 (chunk_path out i) = fs (chunk_path out i)))"
proof -
  have conv: "convert_to_wav env cfg fs p
           = (case librosa_strategy env cfg fs1 p out of
                (Inr u, fs2) \<Rightarrow> (Inr out, fs2)
              | (Inl e2, fs2) \<Rightarrow>
                  (Inl (AudioProcessingError (cps ''Failed to convert audio: '' @ e2)), fs2))"
    using assms by (simp add: convert_to_wav_def split: prod.splits sum.splits)
  have both: "transcribe env cfg fs p lang
                 = (Inl (TranscriptionError (cps ''Failed to convert audio: '' @ e2)
                           ''AUDIO_PROCESSING_ERROR''), fs2, [])
             \<and> (\<forall>q. q \<noteq> out \<longrightarrow> fs2 q = fs q)
             \<and> (\<forall>i. fs2 (chunk_path out i) = fs (chunk_path out i))"
    if l: "librosa_strategy env cfg fs1 p out = (Inl e2, fs2)"
      and d: "get_audio_duration env fs p = Inr d"
        "d \<le> real_of_int (max_audio_duration_seconds cfg)" "1 / 10 \<le> d"
    for e2 fs2 d
  proof -
    have c: "convert_to_wav env cfg fs p
        = (Inl (AudioProcessingError (cps ''Failed to convert audio: '' @ e2)), fs2)"
      using conv l by simp
    have t: "transcribe env cfg fs p lang
                 = (Inl (TranscriptionError (cps ''Failed to convert audio: '' @ e2)
                           ''AUDIO_PROCESSING_ERROR''), fs2, [])"
      using d c by (simp add: transcribe_def transcribe_try_def transcribe_except_def)
    have f: "fs2 q = fs q" if "q \<noteq> out" for q
      using pydub_strategy_frame[OF assms(2) that] librosa_strategy_frame[OF l that] by simp
    from t f chunk_path_neq show ?thesis by blast
  qed
  from conv both show ?thesis by blast
qed

lemma demo_with_suffix:
  "with_suffix env demo_path (cps ''.converted.wav'') = Inr wav125"
  by (simp add: demo_defs path_defs wav125_def)

theorem conversion_fallback_witness:
  "transcribe undecodable_env (demo_cfg 60) (demo_fs privet) demo_path None
     = (Inl (TranscriptionError (cps ''Failed to convert audio: format not recognised'')
               ''AUDIO_PROCESSING_ERROR''), demo_fs privet, [])
   \<and> convert_to_wav fallback_env (demo_cfg 60) (demo_fs privet) demo_path
     = (Inr wav125, (demo_fs privet)(wav125 \<mapsto> Wav 1 (map real privet)))"
proof -
  have p1: "pydub_strategy undecodable_env (demo_cfg 60) (demo_fs privet) demo_path wav125
      = (Inl (cps ''ffmpeg not found''), demo_fs privet)"
    by (simp add: pydub_strategy_def undecodable_env_def demo_env_def)
  have l1: "librosa_strategy undecodable_env (demo_cfg 60) (demo_fs privet) demo_path wav125
      = (Inl (cps ''format not recognised''), demo_fs privet)"
    by (simp add: librosa_strategy_def undecodable_env_def demo_env_def)
  have d1: "get_audio_duration undecodable_env (demo_fs privet) demo_path = Inr 15"
    by (simp add: get_audio_duration_def undecodable_env_def demo_defs privet_def)
  have m: "max_audio_duration_seconds (demo_cfg 60) = 7200"
    by (simp add: demo_cfg_def)
  from conversion_fallback[OF demo_with_suffix p1, where lang = None] l1 d1
  have a: "transcribe undecodable_env (demo_cfg 60) (demo_fs privet) demo_path None
     = (Inl (TranscriptionError (cps ''Failed to convert audio: format not recognised'')
               ''AUDIO_PROCESSING_ERROR''), demo_fs privet, [])"
    by (simp add: m cps_def)
  have p2: "pydub_strategy fallback_env (demo_cfg 60) (demo_fs privet) demo_path wav125
      = (Inl (cps ''ffmpeg not found''), demo_fs privet)"
    by (simp add: pydub_strategy_def fallback_env_def demo_env_def)
  have l2: "librosa_strategy fallback_env (demo_cfg 60) (demo_fs privet) demo_path wav125
      = (Inr (), (demo_fs privet)(wav125 \<mapsto> Wav 1 (map real privet)))"
    by (simp add: librosa_strategy_def fallback_env_def demo_env_def demo_fs_def demo_cfg_def
        write_file_def)
  from conversion_fallback[OF demo_with_suffix p2, where lang = None]
  have b: "convert_to_wav fallback_env (demo_cfg 60) (demo_fs privet) demo_path
     = (Inr wav125, (demo_fs privet)(wav125 \<mapsto> Wav 1 (map real privet)))"
    by (simp add: l2)
  from a b show ?thesis by blast
qed

theorem conversion_fallback_counterexample:
  "fst (pydub_strategy disk_full_env (demo_cfg 60) (demo_fs hello_world) demo_path wav125)
     = Inl (cps ''disk full'')
   \<and> fst (librosa_strategy disk_full_env (demo_cfg 60) (demo_fs hello_world) demo_path wav125)
     = Inl (cps ''disk full'')
   \<and> fst (transcribe disk_full_env (demo_cfg 60) (demo_fs hello_world) demo_path None)
     = Inl (TranscriptionError (cps ''Failed to convert audio: disk full'')
              ''AUDIO_PROCESSING_ERROR'')
   \<and> \<not> (\<exists>m. fst (transcribe disk_full_env (demo_cfg 60) (demo_fs hello_world) demo_path None)
             = Inl (TranscriptionError m ''CONVERSION_FAILED''))"
  by (simp add: run_defs transcribe_except_def disk_full_env_def fallback_env_def demo_defs
      path_defs hello_world_def)

section \<open>Saving an upload\<close>

text \<open>
  C10. When reading the file object returns bytes and the write does not fail,
  \<open>save_upload\<close> returns the path of the temp directory whose name is the generated UUID
  followed by the extension of the specification, and the file system differs by that
  file alone, which holds the bytes read. (Lowercasing maps no string but the empty one
  to the empty string; this is Python's \<open>str.lower\<close>.)
\<close>

theorem save_upload_stores:
  assumes "\<forall>s. s \<noteq> [] \<longrightarrow> str_lower env s \<noteq> []"
    and "open_write env (joinpath (temp_dir cfg) (uuid4 env @ saved_extension env fname)) = None"
  shows "save_upload env cfg fs (Inr bytes) fname
           = (Inr (joinpath (temp_dir cfg) (uuid4 env @ saved_extension env fname)),
              fs(joinpath (temp_dir cfg) (uuid4 env @ saved_extension env fname) \<mapsto> Bytes bytes))
       \<and> parent (joinpath (temp_dir cfg) (uuid4 env @ saved_extension env fname)) = temp_dir cfg
       \<and> name (joinpath (temp_dir cfg) (uuid4 env @ saved_extension env fname))
           = uuid4 env @ saved_extension env fname
       \<and> (suffix (path_of fname) = [] \<longrightarrow> saved_extension env fname = cps ''.wav'')
       \<and> (suffix (path_of fname) \<noteq> [] \<longrightarrow>
             saved_extension env fname = str_lower env (suffix (path_of fname)))"
proof -
  have ext: "(if lower env (suffix (path_of fname)) = [] then cps ''.wav''
              else lower env (suffix (path_of fname))) = saved_extension env fname"
    using assms(1) by (auto simp: saved_extension_def lower_def)
  have run: "save_upload env cfg fs (Inr bytes) fname
           = (Inr (joinpath (temp_dir cfg) (uuid4 env @ saved_extension env fname)),
              fs(joinpath (temp_dir cfg) (uuid4 env @ saved_extension env fname) \<mapsto> Bytes bytes))"
    unfolding save_upload_def Let_def ext using assms(2) by (simp add: write_file_def)
  show ?thesis
    using run by (simp add: joinpath_def saved_extension_def lower_def)
qed

theorem save_upload_stores_witness:
  "save_upload demo_env (demo_cfg 60) Map.empty (Inr privet) (cps ''Music/Song.tar.MP3'')
     = (Inr (Path (cps ''/app/temp'') (cps ''0b1e.mp3'')),
        [Path (cps ''/app/temp'') (cps ''0b1e.mp3'') \<mapsto> Bytes privet])
   \<and> save_upload demo_env (demo_cfg 60) Map.empty (Inr privet) (cps ''README'')
     = (Inr (Path (cps ''/app/temp'') (cps ''0b1e.wav'')),
        [Path (cps ''/app/temp'') (cps ''0b1e.wav'') \<mapsto> Bytes privet])"
proof -
  have h1: "\<forall>s. s \<noteq> [] \<longrightarrow> str_lower demo_env s \<noteq> []"
    by (simp add: demo_env_def ascii_lower_def)
  have h2: "open_write demo_env p = None" for p
    by (simp add: demo_env_def)
  have e1: "saved_extension demo_env (cps ''Music/Song.tar.MP3'') = cps ''.mp3''"
    by (simp add: saved_extension_def path_of_def lower_def demo_env_def ascii_lower_def
        path_defs Let_def)
  have e2: "saved_extension demo_env (cps ''README'') = cps ''.wav''"
    by (simp add: saved_extension_def path_of_def lower_def demo_env_def ascii_lower_def
        path_defs Let_def)
  have u: "uuid4 demo_env = cps ''0b1e''" "temp_dir (demo_cfg 60) = cps ''/app/temp''"
    by (simp_all add: demo_env_def demo_cfg_def)
  from save_upload_stores[where env = demo_env and cfg = "demo_cfg 60"
      and fname = "cps ''Music/Song.tar.MP3''" and fs = Map.empty and bytes = privet, OF h1 h2]
  have a: "save_upload demo_env (demo_cfg 60) Map.empty (Inr privet) (cps ''Music/Song.tar.MP3'')
     = (Inr (Path (cps ''/app/temp'') (cps ''0b1e.mp3'')),
        [Path (cps ''/app/temp'') (cps ''0b1e.mp3'') \<mapsto> Bytes privet])"
    unfolding e1 u joinpath_def by (simp add: cps_def)
  from save_upload_stores[where env = demo_env and cfg = "demo_cfg 60"
      and fname = "cps ''README''" and fs = Map.empty and bytes = privet, OF h1 h2]
  have b: "save_upload demo_env (demo_cfg 60) Map.empty (Inr privet) (cps ''README'')
     = (Inr (Path (cps ''/app/temp'') (cps ''0b1e.wav'')),
        [Path (cps ''/app/temp'') (cps ''0b1e.wav'') \<mapsto> Bytes privet])"
    unfolding e2 u joinpath_def by (simp add: cps_def)
  from a b show ?thesis by blast
qed

section \<open>A chunk that cannot be written\<close>

lemma split_loop_fails:
  assumes "\<forall>i\<in>set pre. sf_write env (chunk_path ap i) = None"
    and "sf_write env (chunk_path ap k) = Some (WriteFault e l)"
  shows "split_loop env ap y sr cs (pre @ k # post) chunks fs
       = (Inl (e, chunks @ map (chunk_path ap) pre),
          if l then (fold (write_chunk ap y sr cs) pre fs)(chunk_path ap k \<mapsto> Truncated)
          else fold (write_chunk ap y sr cs) pre fs)"
  using assms
  by (induction pre arbitrary: chunks fs) (simp_all add: write_file_def write_chunk_def Let_def)

lemma upt_split: "k < n \<Longrightarrow> [0..<n] = [0..<k] @ k # [Suc k..<n]"
  by (metis less_imp_add_positive upt_add_eq_append upt_conv_Cons zero_le add.commute
      less_or_eq_imp_le)

text \<open>
  C7, as the code has it. When the write of chunk \<open>k\<close> is the first to fail, the chunker
  raises an \<open>AudioProcessingError\<close> with the text of the failure, after it has unlinked
  every chunk written before: each of them is gone, unless its own unlink fails, which is
  swallowed and leaves that chunk on disk. No path but those of the chunks \<open>0..k\<close> has
  changed.
\<close>

theorem split_audio_failure_cleanup:
  assumes "librosa_load env (fs ap) (sample_rate cfg) = Inr y"
    and "C * sample_rate cfg \<noteq> 0"
    and "k < nat \<lceil>real (length y) / real_of_int (C * sample_rate cfg)\<rceil>"
    and "\<forall>i < k. sf_write env (chunk_path ap i) = None"
    and "sf_write env (chunk_path ap k) = Some (WriteFault e l)"
  shows "\<exists>fs2.
           split_audio env cfg fs ap C
             = (Inl (AudioProcessingError (cps ''Failed to split audio: '' @ e)), fs2)
         \<and> (\<forall>i < k. \<not> unlink_fault env (chunk_path ap i) \<longrightarrow> fs2 (chunk_path ap i) = None)
         \<and> (\<forall>i < k. unlink_fault env (chunk_path ap i) \<longrightarrow> fs2 (chunk_path ap i) \<noteq> None)
         \<and> (\<forall>q. q \<notin> chunk_path ap ` {..k} \<longrightarrow> fs2 q = fs q)"
proof -
  let ?n = "nat \<lceil>real (length y) / real_of_int (C * sample_rate cfg)\<rceil>"
  let ?w = "write_chunk ap y (sample_rate cfg) (C * sample_rate cfg)"
  let ?fs1 = "if l then (fold ?w [0..<k] fs)(chunk_path ap k \<mapsto> Truncated)
              else fold ?w [0..<k] fs"
  let ?created = "map (chunk_path ap) [0..<k]"
  let ?fs2 = "unlink_chunks env ?created ?fs1"
  have pre: "\<forall>i\<in>set [0..<k]. sf_write env (chunk_path ap i) = None"
    using assms(4) by simp
  have loop: "split_loop env ap y (sample_rate cfg) (C * sample_rate cfg) [0..<?n] [] fs
       = (Inl (e, ?created), ?fs1)"
    unfolding upt_split[OF assms(3)]
    using split_loop_fails[OF pre assms(5), of y "sample_rate cfg" "C * sample_rate cfg"
        "[Suc k..<?n]" "[]" fs]
    by simp
  have run: "split_audio env cfg fs ap C
             = (Inl (AudioProcessingError (cps ''Failed to split audio: '' @ e)), ?fs2)"
    using assms(1,2) loop by (simp add: split_audio_def Let_def)
  have gone: "?fs2 (chunk_path ap i) = None"
    if "i < k" "\<not> unlink_fault env (chunk_path ap i)" for i
    using that by (simp add: unlink_chunks_apply)
  have written: "?fs1 (chunk_path ap i) \<noteq> None" if "i < k" for i
  proof -
    have "i \<in> set [0..<k]" using that by simp
    from fold_write_chunk_at[OF this, of ap y "sample_rate cfg" "C * sample_rate cfg" fs]
    show ?thesis using that by (simp add: chunk_path_inj)
  qed
  have stays: "?fs2 (chunk_path ap i) \<noteq> None"
    if "i < k" "unlink_fault env (chunk_path ap i)" for i
    using that written[OF that(1)] by (simp add: unlink_chunks_apply)
  have frame: "?fs2 q = fs q" if "q \<notin> chunk_path ap ` {..k}" for q
  proof -
    have a: "q \<notin> chunk_path ap ` set [0..<k]" using that by auto
    have b: "q \<noteq> chunk_path ap k" using that by auto
    have "?fs1 q = fs q"
      using fold_write_chunk_other[OF a] b by simp
    moreover have "q \<notin> set ?created" using a by simp
    ultimately show ?thesis by (simp add: unlink_chunks_apply)
  qed
  show ?thesis
    using run gone stays frame by (intro exI[of _ ?fs2]) blast
qed

lemma wav125_not_chunk: "wav125 \<noteq> chunk_path wav125 i"
  using chunk_path_neq[of wav125 i] by simp

theorem split_audio_failure_cleanup_witness:
  "fst (split_audio (chunk_fault_env 2 (\<lambda>q. q = chunk_path wav125 1)) (demo_cfg 60) fs125 wav125 60)
     = Inl (AudioProcessingError (cps ''Failed to split audio: disk full''))
   \<and> snd (split_audio (chunk_fault_env 2 (\<lambda>q. q = chunk_path wav125 1)) (demo_cfg 60) fs125 wav125 60)
         (chunk_path wav125 0) = None
   \<and> snd (split_audio (chunk_fault_env 2 (\<lambda>q. q = chunk_path wav125 1)) (demo_cfg 60) fs125 wav125 60)
         (chunk_path wav125 1) \<noteq> None
   \<and> snd (split_audio (chunk_fault_env 2 (\<lambda>q. q = chunk_path wav125 1)) (demo_cfg 60) fs125 wav125 60)
         wav125 = Some (Wav 1 (replicate 125 0))"
proof -
  let ?E = "chunk_fault_env 2 (\<lambda>q. q = chunk_path wav125 1)"
  have h1: "librosa_load ?E (fs125 wav125) (sample_rate (demo_cfg 60)) = Inr (replicate 125 0)"
    by (simp add: chunk_fault_env_def demo_env_def fs125_def)
  have h2: "60 * sample_rate (demo_cfg 60) \<noteq> 0"
    by (simp add: demo_cfg_def)
  have h3: "2 < nat \<lceil>real (length (replicate 125 (0::real)))
                    / real_of_int (60 * sample_rate (demo_cfg 60))\<rceil>"
    by (simp add: demo_cfg_def)
  have h4: "\<forall>i < 2. sf_write ?E (chunk_path wav125 i) = None"
    by (simp add: chunk_fault_env_def chunk_path_inj)
  have h5: "sf_write ?E (chunk_path wav125 2) = Some (WriteFault (cps ''disk full'') False)"
    by (simp add: chunk_fault_env_def)
  from split_audio_failure_cleanup[where env = ?E and fs = fs125 and ap = wav125
      and cfg = "demo_cfg 60" and y = "replicate 125 0" and C = 60 and k = 2, OF h1 h2 h3 h4 h5]
  obtain fs2 where
    run: "split_audio ?E (demo_cfg 60) fs125 wav125 60
             = (Inl (AudioProcessingError (cps ''Failed to split audio: '' @ cps ''disk full'')), fs2)"
    and gone: "\<forall>i < 2. \<not> unlink_fault ?E (chunk_path wav125 i) \<longrightarrow> fs2 (chunk_path wav125 i) = None"
    and stays: "\<forall>i < 2. unlink_fault ?E (chunk_path wav125 i) \<longrightarrow> fs2 (chunk_path wav125 i) \<noteq> None"
    and frame: "\<forall>q. q \<notin> chunk_path wav125 ` {..2} \<longrightarrow> fs2 q = fs125 q"
    by blast
  have a: "fs2 (chunk_path wav125 0) = None"
    using gone[rule_format, of 0] by (simp add: chunk_fault_env_def chunk_path_inj)
  have b: "fs2 (chunk_path wav125 1) \<noteq> None"
    using stays[rule_format, of 1] by (simp add: chunk_fault_env_def)
  have "wav125 \<notin> chunk_path wav125 ` {..2}"
    using wav125_not_chunk by blast
  with frame have c: "fs2 wav125 = Some (Wav 1 (replicate 125 0))"
    by (simp add: fs125_def)
  from a b c show ?thesis
    unfolding run by (simp add: cps_def)
qed

theorem split_audio_failure_cleanup_counterexample:
  "fst (split_audio (chunk_fault_env 1 (\<lambda>q. True)) (demo_cfg 60) fs125 wav125 60)
     = Inl (AudioProcessingError (cps ''Failed to split audio: disk full''))
   \<and> fs125 (chunk_path wav125 0) = None
   \<and> snd (split_audio (chunk_fault_env 1 (\<lambda>q. True)) (demo_cfg 60) fs125 wav125 60)
         (chunk_path wav125 0) = Some (Wav 1 (replicate 60 0))"
proof -
  have n: "nat \<lceil>(125::real) / 60\<rceil> = 3" by simp
  have run: "split_audio (chunk_fault_env 1 (\<lambda>q. True)) (demo_cfg 60) fs125 wav125 60
     = (Inl (AudioProcessingError (cps ''Failed to split audio: '' @ cps ''disk full'')),
        fs125(chunk_path wav125 0 \<mapsto> Wav 1 (replicate 60 0)))"
    by (simp add: split_audio_def chunk_fault_env_def demo_env_def demo_cfg_def fs125_def
        Let_def n upt3 write_file_def chunk_path_inj unlink_def py_slice_def)
  have before: "fs125 (chunk_path wav125 0) = None"
    using wav125_not_chunk[of 0] by (auto simp: fs125_def)
  show ?thesis
    unfolding run using before by (simp add: cps_def)
qed

section \<open>What a run does to the files\<close>

subsection \<open>The converter\<close>

lemma write_file_clean:
  "write_file flt fs q c = (Inl e, fs') \<Longrightarrow> flt \<noteq> Some (WriteFault e True) \<Longrightarrow> fs' = fs"
  by (auto simp: write_file_def split: option.splits write_fault.splits if_splits)

lemma pydub_strategy_clean:
  "no_leftovers env \<Longrightarrow> pydub_strategy env cfg fs p out = (Inl e, fs1) \<Longrightarrow> fs1 = fs"
  by (auto simp: pydub_strategy_def no_leftovers_def split: sum.splits dest: write_file_clean)

lemma librosa_strategy_clean:
  "no_leftovers env \<Longrightarrow> librosa_strategy env cfg fs p out = (Inl e, fs1) \<Longrightarrow> fs1 = fs"
  by (auto simp: librosa_strategy_def no_leftovers_def split: sum.splits dest: write_file_clean)

lemma convert_to_wav_no_name:
  "with_suffix env p (cps ''.converted.wav'') = Inl e \<Longrightarrow> convert_to_wav env cfg fs p = (Inl e, fs)"
  by (simp add: convert_to_wav_def)

lemma convert_to_wav_frame:
  assumes "with_suffix env p (cps ''.converted.wav'') = Inr out"
    and "convert_to_wav env cfg fs p = (r, fsc)"
  shows "(\<forall>q. q \<noteq> out \<longrightarrow> fsc q = fs q) \<and> (\<forall>conv. r = Inr conv \<longrightarrow> conv = out \<and> fsc out \<noteq> None)"
proof -
  obtain r1 fs1 where p1: "pydub_strategy env cfg fs p out = (r1, fs1)"
    by (cases "pydub_strategy env cfg fs p out")
  obtain r2 fs2 where p2: "librosa_strategy env cfg fs1 p out = (r2, fs2)"
    by (cases "librosa_strategy env cfg fs1 p out")
  have f1: "fs1 q = fs q" if "q \<noteq> out" for q
    using pydub_strategy_frame[OF p1 that] .
  have f2: "fs2 q = fs1 q" if "q \<noteq> out" for q
    using librosa_strategy_frame[OF p2 that] .
  have w1: "fs1 out \<noteq> None" if "r1 = Inr u" for u
    using p1 that by (auto simp: pydub_strategy_def split: sum.splits dest: write_file_ok)
  have w2: "fs2 out \<noteq> None" if "r2 = Inr u" for u
    using p2 that by (auto simp: librosa_strategy_def split: sum.splits dest: write_file_ok)
  show ?thesis
  proof (cases r1)
    case (Inr u)
    with assms p1 have "r = Inr out" "fsc = fs1" by (simp_all add: convert_to_wav_def)
    with f1 w1[OF Inr] show ?thesis by simp
  next
    case (Inl e1)
    show ?thesis
    proof (cases r2)
      case (Inr u)
      with assms p1 p2 Inl have "r = Inr out" "fsc = fs2" by (simp_all add: convert_to_wav_def)
      with f1 f2 w2[OF Inr] show ?thesis by simp
    next
      case r2: (Inl e2)
      with assms p1 p2 Inl have "\<exists>e. r = Inl e" "fsc = fs2" by (auto simp: convert_to_wav_def)
      with f1 f2 show ?thesis by auto
    qed
  qed
qed

lemma convert_to_wav_clean:
  assumes "no_leftovers env" and "convert_to_wav env cfg fs p = (Inl e, fsc)"
  shows "fsc = fs"
proof (cases "with_suffix env p (cps ''.converted.wav'')")
  case (Inl e')
  from convert_to_wav_no_name[OF this] assms(2) show ?thesis by simp
next
  case (Inr out)
  obtain r1 fs1 where p1: "pydub_strategy env cfg fs p out = (r1, fs1)"
    by (cases "pydub_strategy env cfg fs p out")
  obtain r2 fs2 where p2: "librosa_strategy env cfg fs1 p out = (r2, fs2)"
    by (cases "librosa_strategy env cfg fs1 p out")
  from assms(2) Inr p1 p2 obtain e1 e2 where "r1 = Inl e1" "r2 = Inl e2" "fsc = fs2"
    by (cases r1; cases r2) (simp_all add: convert_to_wav_def)
  with p1 p2 pydub_strategy_clean[OF assms(1)] librosa_strategy_clean[OF assms(1)]
  show ?thesis by blast
qed

subsection \<open>The chunker\<close>

lemma split_audio_frame:
  assumes "split_audio env cfg fs ap C = (r, fs2)" and "q \<notin> range (chunk_path ap)"
  shows "fs2 q = fs q"
proof (cases "librosa_load env (fs ap) (sample_rate cfg)")
  case (Inl e)
  with assms show ?thesis by (simp add: split_audio_def)
next
  case (Inr y)
  let ?cs = "C * sample_rate cfg"
  let ?n = "nat \<lceil>real (length y) / real_of_int ?cs\<rceil>"
  show ?thesis
  proof (cases "?cs = 0")
    case True
    with assms Inr show ?thesis by (simp add: split_audio_def)
  next
    case False
    obtain r1 fs1 where loop:
      "split_loop env ap y (sample_rate cfg) ?cs [0..<?n] [] fs = (r1, fs1)"
      by (cases "split_loop env ap y (sample_rate cfg) ?cs [0..<?n] [] fs")
    have other: "fold (write_chunk ap y (sample_rate cfg) ?cs) idxs fs q = fs q" for idxs
      using assms(2) by (intro fold_write_chunk_other) auto
    show ?thesis
    proof (cases r1)
      case r1: (Inr chunks)
      from split_loop_Inr[OF loop[unfolded r1]]
      have "split_loop env ap y (sample_rate cfg) ?cs [0..<?n] [] fs
          = (Inr ([] @ map (chunk_path ap) [0..<?n]),
             fold (write_chunk ap y (sample_rate cfg) ?cs) [0..<?n] fs)"
        by (rule split_loop_ok)
      with loop r1 have "fs1 = fold (write_chunk ap y (sample_rate cfg) ?cs) [0..<?n] fs"
        by simp
      moreover from assms(1) Inr False loop r1 have "fs2 = fs1"
        by (simp add: split_audio_def Let_def)
      ultimately show ?thesis using other by simp
    next
      case r1: (Inl ec)
      obtain e created where ec: "ec = (e, created)" by (cases ec)
      from split_loop_Inl[OF loop[unfolded r1 ec]] obtain k l where
        k: "k < length [0..<?n]" "created = [] @ map (chunk_path ap) (take k [0..<?n])"
        and fs1: "fs1 = (if l then (fold (write_chunk ap y (sample_rate cfg) ?cs) (take k [0..<?n]) fs)
                                  (chunk_path ap ([0..<?n] ! k) \<mapsto> Truncated)
                      else fold (write_chunk ap y (sample_rate cfg) ?cs) (take k [0..<?n]) fs)"
        by blast
      have "fs1 q = fs q"
        using fs1 other assms(2) by auto
      moreover have "q \<notin> set created" using k(2) assms(2) by auto
      moreover from assms(1) Inr False loop r1 ec have "fs2 = unlink_chunks env created fs1"
        by (simp add: split_audio_def Let_def)
      ultimately show ?thesis by (simp add: unlink_chunks_apply)
    qed
  qed
qed

lemma split_audio_tidy:
  assumes "no_leftovers env" and "\<forall>q. \<not> unlink_fault env q"
    and "split_audio env cfg fs ap C = (r, fs2)"
  shows "(\<forall>e. r = Inl e \<longrightarrow> (\<forall>q. fs2 q = fs q \<or> fs2 q = None))
       \<and> (\<forall>chunks. r = Inr chunks \<longrightarrow> (\<forall>q. q \<in> set chunks \<or> fs2 q = fs q))"
proof (cases "librosa_load env (fs ap) (sample_rate cfg)")
  case (Inl e)
  with assms show ?thesis by (auto simp: split_audio_def)
next
  case (Inr y)
  let ?cs = "C * sample_rate cfg"
  let ?n = "nat \<lceil>real (length y) / real_of_int ?cs\<rceil>"
  let ?w = "write_chunk ap y (sample_rate cfg) ?cs"
  show ?thesis
  proof (cases "?cs = 0")
    case True
    with assms Inr show ?thesis by (auto simp: split_audio_def)
  next
    case False
    obtain r1 fs1 where loop:
      "split_loop env ap y (sample_rate cfg) ?cs [0..<?n] [] fs = (r1, fs1)"
      by (cases "split_loop env ap y (sample_rate cfg) ?cs [0..<?n] [] fs")
    show ?thesis
    proof (cases r1)
      case r1: (Inr chunks)
      from split_loop_Inr[OF loop[unfolded r1]]
      have "split_loop env ap y (sample_rate cfg) ?cs [0..<?n] [] fs
          = (Inr ([] @ map (chunk_path ap) [0..<?n]), fold ?w [0..<?n] fs)"
        by (rule split_loop_ok)
      with loop r1 have c: "chunks = map (chunk_path ap) [0..<?n]" "fs1 = fold ?w [0..<?n] fs"
        by simp_all
      from assms(3) Inr False loop r1 have res: "r = Inr chunks" "fs2 = fs1"
        by (simp_all add: split_audio_def Let_def)
      have "q \<in> set chunks \<or> fs2 q = fs q" for q
      proof (cases "q \<in> chunk_path ap ` set [0..<?n]")
        case True
        then show ?thesis using c(1) by simp
      next
        case False
        from fold_write_chunk_other[OF this] show ?thesis using res c by simp
      qed
      with res show ?thesis by simp
    next
      case r1: (Inl ec)
      obtain e created where ec: "ec = (e, created)" by (cases ec)
      from split_loop_Inl[OF loop[unfolded r1 ec]] obtain k l where
        k: "k < length [0..<?n]" "created = [] @ map (chunk_path ap) (take k [0..<?n])"
        and flt: "sf_write env (chunk_path ap ([0..<?n] ! k)) = Some (WriteFault e l)"
        and fs1: "fs1 = (if l then (fold ?w (take k [0..<?n]) fs)
                                  (chunk_path ap ([0..<?n] ! k) \<mapsto> Truncated)
                      else fold ?w (take k [0..<?n]) fs)"
        by blast
      from flt assms(1) have "\<not> l" by (auto simp: no_leftovers_def)
      with fs1 have fs1': "fs1 = fold ?w (take k [0..<?n]) fs" by simp
      from assms(3) Inr False loop r1 ec have res: "r = Inl (AudioProcessingError (cps ''Failed to split audio: '' @ e))"
        "fs2 = unlink_chunks env created fs1"
        by (simp_all add: split_audio_def Let_def)
      have "fs2 q = fs q \<or> fs2 q = None" for q
      proof (cases "q \<in> set created")
        case True
        with assms(2) res show ?thesis by (simp add: unlink_chunks_apply)
      next
        case False
        then have "q \<notin> chunk_path ap ` set (take k [0..<?n])" using k(2) by simp
        from fold_write_chunk_other[OF this] False res fs1' show ?thesis
          by (simp add: unlink_chunks_apply)
      qed
      with res show ?thesis by simp
    qed
  qed
qed

subsection \<open>The block of \<open>transcribe\<close>\<close>

text \<open>The outcome of the block, step by step.\<close>

lemma transcribe_try_cases:
  assumes "transcribe_try env cfg fs p lang = (r, temp_files, fs1, calls)"
  shows "(temp_files = [] \<and> fs1 = fs)
       \<or> (\<exists>e. convert_to_wav env cfg fs p = (Inl e, fs1) \<and> temp_files = [])
       \<or> (\<exists>conv fsc. convert_to_wav env cfg fs p = (Inr conv, fsc)
             \<and> ((temp_files = [conv] \<and> fs1 = fsc)
                \<or> (\<exists>e. split_audio env cfg fsc conv (chunk_size_seconds cfg) = (Inl e, fs1)
                       \<and> temp_files = [conv])
                \<or> (\<exists>chunks. split_audio env cfg fsc conv (chunk_size_seconds cfg) = (Inr chunks, fs1)
                       \<and> temp_files = conv # chunks)))"
  using assms unfolding transcribe_try_def
  by (auto split: sum.splits prod.splits if_splits)

lemma transcribe_try_files:
  assumes tr: "transcribe_try env cfg fs p lang = (r, temp_files, fs1, calls)"
  shows "with_suffix env p (cps ''.converted.wav'') = Inl e \<Longrightarrow> temp_files = [] \<and> fs1 = fs"
    and "with_suffix env p (cps ''.converted.wav'') = Inr out \<Longrightarrow>
           set temp_files \<subseteq> artifact_paths out"
    and "with_suffix env p (cps ''.converted.wav'') = Inr out \<Longrightarrow>
           q \<notin> artifact_paths out \<Longrightarrow> fs1 q = fs q"
    and "with_suffix env p (cps ''.converted.wav'') = Inr out \<Longrightarrow>
           no_leftovers env \<and> (\<forall>q. \<not> unlink_fault env q) \<Longrightarrow>
           q \<in> set temp_files \<or> fs1 q = fs q \<or> fs1 q = None"
proof -
  have none: "temp_files = [] \<and> fs1 = fs"
    if ws: "with_suffix env p (cps ''.converted.wav'') = Inl e" for e
    using convert_to_wav_no_name[OF ws] transcribe_try_cases[OF tr] by auto
  have reg: "set temp_files \<subseteq> artifact_paths out"
    if ws: "with_suffix env p (cps ''.converted.wav'') = Inr out" for out
  proof -
    note cf = convert_to_wav_frame[OF ws]
    have "set chunks \<subseteq> range (chunk_path out)"
      if "split_audio env cfg fsc out C = (Inr chunks, f)" for chunks fsc C f
      using split_audio_Inr_chunks[OF that] by (metis image_mono list.set_map subset_UNIV)
    with transcribe_try_cases[OF tr] cf show ?thesis
      by (fastforce simp: artifact_paths_def)
  qed
  have frame: "fs1 q = fs q"
    if ws: "with_suffix env p (cps ''.converted.wav'') = Inr out"
      and q: "q \<notin> artifact_paths out" for out q
  proof -
    note cf = convert_to_wav_frame[OF ws]
    from q have q1: "q \<noteq> out" and q2: "q \<notin> range (chunk_path out)"
      by (auto simp: artifact_paths_def)
    have sp: "f q = fsc q" if "split_audio env cfg fsc out C = (r', f)" for fsc C r' f
      using split_audio_frame[OF that q2] .
    from transcribe_try_cases[OF tr] show ?thesis
    proof (elim disjE exE conjE)
      assume "temp_files = []" "fs1 = fs"
      then show ?thesis by simp
    next
      fix e assume "convert_to_wav env cfg fs p = (Inl e, fs1)"
      from cf[OF this] q1 show ?thesis by simp
    next
      fix conv fsc
      assume c: "convert_to_wav env cfg fs p = (Inr conv, fsc)" and "fs1 = fsc"
      with cf[OF c] q1 show ?thesis by simp
    next
      fix conv fsc e
      assume c: "convert_to_wav env cfg fs p = (Inr conv, fsc)"
        and s: "split_audio env cfg fsc conv (chunk_size_seconds cfg) = (Inl e, fs1)"
      from cf[OF c] have "conv = out" "fsc q = fs q" using q1 by auto
      with sp s show ?thesis by metis
    next
      fix conv fsc chunks
      assume c: "convert_to_wav env cfg fs p = (Inr conv, fsc)"
        and s: "split_audio env cfg fsc conv (chunk_size_seconds cfg) = (Inr chunks, fs1)"
      from cf[OF c] have "conv = out" "fsc q = fs q" using q1 by auto
      with sp s show ?thesis by metis
    qed
  qed
  have tidy: "q \<in> set temp_files \<or> fs1 q = fs q \<or> fs1 q = None"
    if ws: "with_suffix env p (cps ''.converted.wav'') = Inr out"
      and clean: "no_leftovers env \<and> (\<forall>q. \<not> unlink_fault env q)" for out q
  proof -
    note cf = convert_to_wav_frame[OF ws]
    from clean have nl: "no_leftovers env" and nu: "\<forall>q. \<not> unlink_fault env q" by auto
    note cc = convert_to_wav_clean[OF nl]
    note st = split_audio_tidy[OF nl nu]
    from transcribe_try_cases[OF tr] show ?thesis
    proof (elim disjE exE conjE)
      assume "temp_files = []" "fs1 = fs"
      then show ?thesis by simp
    next
      fix e assume "convert_to_wav env cfg fs p = (Inl e, fs1)"
      from cc[OF this] show ?thesis by simp
    next
      fix conv fsc
      assume c: "convert_to_wav env cfg fs p = (Inr conv, fsc)"
        and t: "temp_files = [conv]" "fs1 = fsc"
      from cf[OF c] t show ?thesis by (cases "q = out") auto
    next
      fix conv fsc e
      assume c: "convert_to_wav env cfg fs p = (Inr conv, fsc)"
        and s: "split_audio env cfg fsc conv (chunk_size_seconds cfg) = (Inl e, fs1)"
        and t: "temp_files = [conv]"
      from st[OF s] have "fs1 q = fsc q \<or> fs1 q = None" by simp
      with cf[OF c] t show ?thesis by (cases "q = out") auto
    next
      fix conv fsc chunks
      assume c: "convert_to_wav env cfg fs p = (Inr conv, fsc)"
        and s: "split_audio env cfg fsc conv (chunk_size_seconds cfg) = (Inr chunks, fs1)"
        and t: "temp_files = conv # chunks"
      from st[OF s] have "q \<in> set chunks \<or> fs1 q = fsc q" by simp
      with cf[OF c] t show ?thesis by (cases "q = out") auto
    qed
  qed
  show "with_suffix env p (cps ''.converted.wav'') = Inl e \<Longrightarrow> temp_files = [] \<and> fs1 = fs"
    by (rule none)
  show "with_suffix env p (cps ''.converted.wav'') = Inr out \<Longrightarrow>
           set temp_files \<subseteq> artifact_paths out"
    by (rule reg)
  show "with_suffix env p (cps ''.converted.wav'') = Inr out \<Longrightarrow>
           q \<notin> artifact_paths out \<Longrightarrow> fs1 q = fs q"
    by (rule frame)
  show "with_suffix env p (cps ''.converted.wav'') = Inr out \<Longrightarrow>
           no_leftovers env \<and> (\<forall>q. \<not> unlink_fault env q) \<Longrightarrow>
           q \<in> set temp_files \<or> fs1 q = fs q \<or> fs1 q = None"
    by (rule tidy)
qed

subsection \<open>A failing unlink changes no outcome\<close>

lemma split_loop_unlink_fault:
  "split_loop (env\<lparr>unlink_fault := u\<rparr>) ap y sr cs idxs chunks fs
     = split_loop env ap y sr cs idxs chunks fs"
  by (induction idxs arbitrary: chunks fs) (simp_all add: Let_def split: prod.splits sum.splits)

lemma split_audio_unlink_fault:
  "fst (split_audio (env\<lparr>unlink_fault := u\<rparr>) cfg fs ap C) = fst (split_audio env cfg fs ap C)
   \<and> (\<forall>chunks. fst (split_audio env cfg fs ap C) = Inr chunks \<longrightarrow>
         split_audio (env\<lparr>unlink_fault := u\<rparr>) cfg fs ap C = split_audio env cfg fs ap C)"
  by (auto simp: split_audio_def split_loop_unlink_fault Let_def split: sum.splits prod.splits)

lemma asr_transcribe_unlink_fault:
  "asr_transcribe (env\<lparr>unlink_fault := u\<rparr>) fs p = asr_transcribe env fs p"
  by (simp add: asr_transcribe_def strip_def split: sum.splits)

lemma transcribe_chunks_unlink_fault:
  "transcribe_chunks (env\<lparr>unlink_fault := u\<rparr>) fs chunks texts calls
     = transcribe_chunks env fs chunks texts calls"
  by (induction chunks arbitrary: texts calls)
     (simp_all add: asr_transcribe_unlink_fault split: sum.splits)

lemma convert_to_wav_unlink_fault:
  "convert_to_wav (env\<lparr>unlink_fault := u\<rparr>) cfg fs p = convert_to_wav env cfg fs p"
  by (simp add: convert_to_wav_def with_suffix_def pydub_strategy_def librosa_strategy_def
      cong: sum.case_cong prod.case_cong)

lemma detect_language_unlink_fault:
  "detect_language (env\<lparr>unlink_fault := u\<rparr>) t = detect_language env t"
  by (simp add: detect_language_def)

lemma strip_unlink_fault: "strip (env\<lparr>unlink_fault := u\<rparr>) t = strip env t"
  by (simp add: strip_def)

lemma make_result_unlink_fault:
  "make_result (env\<lparr>unlink_fault := u\<rparr>) t lang d n = make_result env t lang d n"
  by (simp add: make_result_def strip_unlink_fault detect_language_unlink_fault
      split: option.splits)

lemma transcribe_try_unlink_fault:
  "fst (transcribe_try (env\<lparr>unlink_fault := u\<rparr>) cfg fs p lang)
     = fst (transcribe_try env cfg fs p lang)
   \<and> snd (snd (snd (transcribe_try (env\<lparr>unlink_fault := u\<rparr>) cfg fs p lang)))
     = snd (snd (snd (transcribe_try env cfg fs p lang)))"
proof -
  let ?E = "env\<lparr>unlink_fault := u\<rparr>"
  have d: "get_audio_duration ?E fs p = get_audio_duration env fs p"
    by (simp add: get_audio_duration_def)
  note eqs = d convert_to_wav_unlink_fault asr_transcribe_unlink_fault
    transcribe_chunks_unlink_fault make_result_unlink_fault
  show ?thesis
  proof (cases "get_audio_duration env fs p")
    case (Inl e)
    then show ?thesis by (simp add: transcribe_try_def eqs split: sum.splits prod.splits)
  next
    case (Inr dur)
    obtain rc fsc where conv: "convert_to_wav env cfg fs p = (rc, fsc)"
      by (cases "convert_to_wav env cfg fs p")
    show ?thesis
    proof (cases rc)
      case (Inl e)
      with Inr conv show ?thesis by (simp add: transcribe_try_def eqs split: sum.splits prod.splits)
    next
      case rc: (Inr c)
      obtain r2 fs2 where s2: "split_audio env cfg fsc c (chunk_size_seconds cfg) = (r2, fs2)"
        by (cases "split_audio env cfg fsc c (chunk_size_seconds cfg)")
      obtain r3 fs3 where s3: "split_audio ?E cfg fsc c (chunk_size_seconds cfg) = (r3, fs3)"
        by (cases "split_audio ?E cfg fsc c (chunk_size_seconds cfg)")
      from split_audio_unlink_fault[where env = env and u = u and cfg = cfg and fs = fsc
          and ap = c and C = "chunk_size_seconds cfg"] s2 s3
      have r: "r3 = r2" and f: "\<And>chunks. r2 = Inr chunks \<Longrightarrow> fs3 = fs2"
        by auto
      show ?thesis
      proof (cases r2)
        case (Inl e)
        with Inr conv rc s2 s3 r show ?thesis
          by (simp add: transcribe_try_def eqs split: sum.splits prod.splits)
      next
        case r2: (Inr chunks)
        with Inr conv rc s2 s3 r f[OF r2] show ?thesis
          by (simp add: transcribe_try_def eqs split: sum.splits prod.splits)
      qed
    qed
  qed
qed

lemma fst_transcribe:
  "fst (transcribe env cfg fs p lang)
     = (case fst (transcribe_try env cfg fs p lang) of
          Inl e \<Rightarrow> Inl (transcribe_except e) | Inr res \<Rightarrow> Inr res)"
  by (simp add: transcribe_def split: prod.splits)

lemma transcribe_unlink_fault:
  "fst (transcribe (env\<lparr>unlink_fault := u\<rparr>) cfg fs p lang) = fst (transcribe env cfg fs p lang)"
  by (simp add: fst_transcribe transcribe_try_unlink_fault)

lemma transcribe_try_registers:
  assumes "transcribe_try env cfg fs p lang = (r, temp_files, fs1, calls)"
    and "get_audio_duration env fs p = Inr d"
    and "d \<le> real_of_int (max_audio_duration_seconds cfg)" and "1 / 10 \<le> d"
    and "convert_to_wav env cfg fs p = (Inr conv, fsc)"
  shows "conv \<in> set temp_files"
    and "d > real_of_int (chunk_size_seconds cfg) \<Longrightarrow>
         split_audio env cfg fsc conv (chunk_size_seconds cfg) = (Inr chunks, f) \<Longrightarrow>
         temp_files = conv # chunks"
  using assms unfolding transcribe_try_def
  by (auto split: sum.splits prod.splits if_splits)

section \<open>Cleanup on every exit\<close>

text \<open>
  C1, as the code has it. Whatever the block of \<open>transcribe\<close> gives (a result, a domain
  error or an unexpected error), the run returns that outcome after \<open>cleanup_files\<close> has
  been run on the registered paths \<open>temp_files\<close>: the converted file once the conversion
  has returned, and the chunks once the chunker has returned them. Every registered
  path is absent afterwards unless its unlink fails; a failing unlink is swallowed and
  leaves the file, an absent path is skipped, and no failure of an unlink changes the
  outcome. No path but the artifact paths of the run is ever changed. When no unlink
  fails, no failing write leaves a truncated file, and no artifact path existed before
  the run, the files after the run are the files before it.
\<close>

theorem cleanup_on_every_exit:
  assumes "transcribe_try env cfg fs p lang = (r, temp_files, fs1, calls)"
  shows "\<exists>fs'.
           transcribe env cfg fs p lang
             = ((case r of Inl e \<Rightarrow> Inl (transcribe_except e) | Inr res \<Rightarrow> Inr res), fs', calls)
         \<and> (\<forall>q \<in> set temp_files. \<not> unlink_fault env q \<longrightarrow> fs' q = None)
         \<and> (\<forall>q \<in> set temp_files. unlink_fault env q \<longrightarrow> fs' q = fs1 q)
         \<and> (\<forall>q. q \<notin> set temp_files \<longrightarrow> fs' q = fs1 q)
         \<and> (\<forall>u. fst (transcribe (env\<lparr>unlink_fault := u\<rparr>) cfg fs p lang)
                  = fst (transcribe env cfg fs p lang))
         \<and> (\<forall>d conv fsc.
               get_audio_duration env fs p = Inr d
               \<and> d \<le> real_of_int (max_audio_duration_seconds cfg) \<and> 1 / 10 \<le> d
               \<and> convert_to_wav env cfg fs p = (Inr conv, fsc)
               \<longrightarrow> conv \<in> set temp_files
                 \<and> (\<forall>chunks f. d > real_of_int (chunk_size_seconds cfg)
                       \<and> split_audio env cfg fsc conv (chunk_size_seconds cfg) = (Inr chunks, f)
                       \<longrightarrow> temp_files = conv # chunks))
         \<and> (\<forall>out. with_suffix env p (cps ''.converted.wav'') = Inr out \<longrightarrow>
               set temp_files \<subseteq> artifact_paths out
               \<and> (\<forall>q. q \<notin> artifact_paths out \<longrightarrow> fs' q = fs q))
         \<and> (no_leftovers env \<and> (\<forall>q. \<not> unlink_fault env q)
              \<and> (\<forall>out. with_suffix env p (cps ''.converted.wav'') = Inr out
                     \<longrightarrow> (\<forall>q \<in> artifact_paths out. fs q = None))
              \<longrightarrow> fs' = fs)"
proof -
  let ?fs' = "cleanup_files env fs1 temp_files"
  note files = transcribe_try_files[OF assms]
  have run: "transcribe env cfg fs p lang
             = ((case r of Inl e \<Rightarrow> Inl (transcribe_except e) | Inr res \<Rightarrow> Inr res), ?fs', calls)"
    using assms by (simp add: transcribe_def)
  have gone: "\<forall>q \<in> set temp_files. \<not> unlink_fault env q \<longrightarrow> ?fs' q = None"
    by (simp add: cleanup_files_apply)
  have stays: "\<forall>q \<in> set temp_files. unlink_fault env q \<longrightarrow> ?fs' q = fs1 q"
    by (simp add: cleanup_files_apply)
  have others: "\<forall>q. q \<notin> set temp_files \<longrightarrow> ?fs' q = fs1 q"
    by (simp add: cleanup_files_apply)
  have indep: "\<forall>u. fst (transcribe (env\<lparr>unlink_fault := u\<rparr>) cfg fs p lang)
                  = fst (transcribe env cfg fs p lang)"
    by (simp add: transcribe_unlink_fault)
  have registered: "\<forall>d conv fsc.
               get_audio_duration env fs p = Inr d
               \<and> d \<le> real_of_int (max_audio_duration_seconds cfg) \<and> 1 / 10 \<le> d
               \<and> convert_to_wav env cfg fs p = (Inr conv, fsc)
               \<longrightarrow> conv \<in> set temp_files
                 \<and> (\<forall>chunks f. d > real_of_int (chunk_size_seconds cfg)
                       \<and> split_audio env cfg fsc conv (chunk_size_seconds cfg) = (Inr chunks, f)
                       \<longrightarrow> temp_files = conv # chunks)"
    using transcribe_try_registers[OF assms] by blast
  have frame: "\<forall>out. with_suffix env p (cps ''.converted.wav'') = Inr out \<longrightarrow>
               set temp_files \<subseteq> artifact_paths out
               \<and> (\<forall>q. q \<notin> artifact_paths out \<longrightarrow> ?fs' q = fs q)"
  proof (intro allI impI)
    fix out assume ws: "with_suffix env p (cps ''.converted.wav'') = Inr out"
    have sub: "set temp_files \<subseteq> artifact_paths out" by (rule files(2)[OF ws])
    have "?fs' q = fs q" if q: "q \<notin> artifact_paths out" for q
    proof -
      from q sub have "q \<notin> set temp_files" by blast
      then have "?fs' q = fs1 q" by (simp add: cleanup_files_apply)
      with files(3)[OF ws q] show ?thesis by simp
    qed
    with sub show "set temp_files \<subseteq> artifact_paths out
               \<and> (\<forall>q. q \<notin> artifact_paths out \<longrightarrow> ?fs' q = fs q)"
      by blast
  qed
  have zero: "?fs' = fs"
    if nl: "no_leftovers env" and nu: "\<forall>q. \<not> unlink_fault env q"
      and fresh: "\<forall>out. with_suffix env p (cps ''.converted.wav'') = Inr out
                     \<longrightarrow> (\<forall>q \<in> artifact_paths out. fs q = None)"
  proof (cases "with_suffix env p (cps ''.converted.wav'')")
    case (Inl e)
    from files(1)[OF Inl] show ?thesis by simp
  next
    case (Inr out)
    have "?fs' q = fs q" for q
    proof (cases "q \<in> artifact_paths out")
      case False
      with frame Inr show ?thesis by blast
    next
      case True
      with fresh Inr have none: "fs q = None" by blast
      have "q \<in> set temp_files \<or> fs1 q = fs q \<or> fs1 q = None"
        by (rule files(4)[OF Inr conjI[OF nl nu]])
      with none nu show ?thesis by (auto simp: cleanup_files_apply)
    qed
    then show ?thesis by (rule ext)
  qed
  show ?thesis
    apply (rule exI[of _ ?fs'])
    using run gone stays others indep registered frame zero by blast
qed

lemma try_tuple: "t = (fst t, fst (snd t), fst (snd (snd t)), snd (snd (snd t)))"
  by simp

lemma wav125_not_upload: "wav125 \<noteq> demo_path"
  by (simp add: wav125_def demo_path_def cps_def)

lemma chunk_not_upload: "chunk_path wav125 i \<noteq> demo_path"
  by (simp add: chunk_path_def wav125_def demo_path_def stem_def rfind_def cps_def)

lemma demo_fresh:
  "\<forall>out. with_suffix env demo_path (cps ''.converted.wav'') = Inr out
      \<longrightarrow> (\<forall>q \<in> artifact_paths out. demo_fs b q = None)"
  using wav125_not_upload chunk_not_upload
  by (auto simp: demo_with_suffix artifact_paths_def demo_fs_def)

lemma demo_no_leftovers: "no_leftovers demo_env" "no_leftovers crash_env"
  by (simp_all add: no_leftovers_def demo_env_def crash_env_def)

lemma demo_no_unlink_fault: "\<forall>q. \<not> unlink_fault demo_env q" "\<forall>q. \<not> unlink_fault crash_env q"
  by (simp_all add: demo_env_def crash_env_def)

lemma crash_run_tape:
  "fst (transcribe crash_env (demo_cfg 10) (demo_fs tape) demo_path None)
     = Inl (TranscriptionError
              (cps ''Failed to transcribe audio: Transcription failed: decoder crashed'')
              ''TRANSCRIPTION_FAILED'')"
  by (simp add: run_defs transcribe_except_def crash_env_def demo_defs path_defs tape_def
      Let_def upt3)

lemma demo_registered_tape:
  "fst (snd (transcribe_try demo_env (demo_cfg 10) (demo_fs tape) demo_path None))
     = wav125 # map (chunk_path wav125) [0, 1, 2]"
  by (simp add: run_defs demo_defs path_defs tape_def Let_def upt3 replicate3 wav125_def)

theorem cleanup_on_every_exit_witness:
  "fst (snd (transcribe_try demo_env (demo_cfg 10) (demo_fs tape) demo_path None))
     = wav125 # map (chunk_path wav125) [0, 1, 2]
   \<and> fst (snd (transcribe demo_env (demo_cfg 10) (demo_fs tape) demo_path None)) = demo_fs tape
   \<and> fst (transcribe crash_env (demo_cfg 10) (demo_fs tape) demo_path None)
       = Inl (TranscriptionError
                (cps ''Failed to transcribe audio: Transcription failed: decoder crashed'')
                ''TRANSCRIPTION_FAILED'')
   \<and> fst (snd (transcribe crash_env (demo_cfg 10) (demo_fs tape) demo_path None)) = demo_fs tape"
proof -
  from cleanup_on_every_exit[OF try_tuple, of demo_env "demo_cfg 10" "demo_fs tape" demo_path None]
    demo_no_leftovers(1) demo_no_unlink_fault(1) demo_fresh[of demo_env tape]
  obtain fs' where "transcribe demo_env (demo_cfg 10) (demo_fs tape) demo_path None
      = ((case fst (transcribe_try demo_env (demo_cfg 10) (demo_fs tape) demo_path None) of
            Inl e \<Rightarrow> Inl (transcribe_except e) | Inr res \<Rightarrow> Inr res), fs',
         snd (snd (snd (transcribe_try demo_env (demo_cfg 10) (demo_fs tape) demo_path None))))"
    "fs' = demo_fs tape"
    by blast
  then have a: "fst (snd (transcribe demo_env (demo_cfg 10) (demo_fs tape) demo_path None))
      = demo_fs tape"
    by simp
  from cleanup_on_every_exit[OF try_tuple, of crash_env "demo_cfg 10" "demo_fs tape" demo_path None]
    demo_no_leftovers(2) demo_no_unlink_fault(2) demo_fresh[of crash_env tape]
  obtain fs'' where "transcribe crash_env (demo_cfg 10) (demo_fs tape) demo_path None
      = ((case fst (transcribe_try crash_env (demo_cfg 10) (demo_fs tape) demo_path None) of
            Inl e \<Rightarrow> Inl (transcribe_except e) | Inr res \<Rightarrow> Inr res), fs'',
         snd (snd (snd (transcribe_try crash_env (demo_cfg 10) (demo_fs tape) demo_path None))))"
    "fs'' = demo_fs tape"
    by blast
  then have b: "fst (snd (transcribe crash_env (demo_cfg 10) (demo_fs tape) demo_path None))
      = demo_fs tape"
    by simp
  from demo_registered_tape a crash_run_tape b show ?thesis by blast
qed

theorem cleanup_on_every_exit_counterexample:
  "fst (transcribe stuck_env (demo_cfg 60) (demo_fs privet) demo_path None)
     = Inr \<lparr>result_text = privet, language = cps ''ru'', duration = 15, chunks_processed = 1,
            processing_time_ms = 7\<rparr>
   \<and> demo_fs privet wav125 = None
   \<and> fst (snd (transcribe stuck_env (demo_cfg 60) (demo_fs privet) demo_path None)) wav125
       = Some (Wav 1 (map real privet))
   \<and> dom (fst (snd (transcribe stuck_env (demo_cfg 60) (demo_fs privet) demo_path None)))
       \<noteq> dom (demo_fs privet)"
proof -
  have r: "fst (transcribe stuck_env (demo_cfg 60) (demo_fs privet) demo_path None)
     = Inr \<lparr>result_text = privet, language = cps ''ru'', duration = 15, chunks_processed = 1,
            processing_time_ms = 7\<rparr>"
    by (simp add: run_defs stuck_env_def demo_defs path_defs privet_def)
  have before: "demo_fs privet wav125 = None"
    using wav125_not_upload by (simp add: demo_fs_def)
  have after: "fst (snd (transcribe stuck_env (demo_cfg 60) (demo_fs privet) demo_path None)) wav125
       = Some (Wav 1 (map real privet))"
    by (simp add: run_defs stuck_env_def demo_defs path_defs wav125_def cleanup_file_def
        unlink_def privet_def)
  from before after
  have "dom (fst (snd (transcribe stuck_env (demo_cfg 60) (demo_fs privet) demo_path None)))
       \<noteq> dom (demo_fs privet)"
    by (metis domIff option.distinct(1))
  with r before after show ?thesis by blast
qed

end
